theory Spec2Isabelle
  imports Main
begin

section \<open>The view (source) tree\<close>

text \<open>
  Modelled from the spec (section 3): the view tree of the engine is not under src/.
  A view node is a text node or an element with a name, attributes and an ordered list of
  children. The converters compare view elements by object identity (\<open>===\<close>); the source
  tree is read-only during a conversion, so the identity of a node is its path from the
  root of the tree, and a view item is a node together with that path.
\<close>

datatype view_node =
    ViewText string
  | ViewElement string "(string \<times> string) list" "view_node list"

type_synonym view_ref = "nat list"

datatype view_item = ViewItem (itemRef: view_ref) (itemNode: view_node)

fun nodeName :: "view_node \<Rightarrow> string option" where
  "nodeName (ViewText d) = None"
| "nodeName (ViewElement n as cs) = Some n"

fun nodeChildren :: "view_node \<Rightarrow> view_node list" where
  "nodeChildren (ViewText d) = []"
| "nodeChildren (ViewElement n as cs) = cs"

fun nodeAttributes :: "view_node \<Rightarrow> (string \<times> string) list" where
  "nodeAttributes (ViewText d) = []"
| "nodeAttributes (ViewElement n as cs) = as"

text \<open>\<open>name\<close> of a view item: \<open>undefined\<close> (\<open>None\<close>) on a text node.\<close>

definition itemName :: "view_item \<Rightarrow> string option" where
  "itemName v = nodeName (itemNode v)"

text \<open>\<open>getChildren()\<close>: the children in order, the i-th one identified by the path of
  its parent extended by i.\<close>

definition getChildren :: "view_item \<Rightarrow> view_item list" where
  "getChildren v =
     map (\<lambda>(i, c). ViewItem (itemRef v @ [i]) c) (enumerate 0 (nodeChildren (itemNode v)))"

text \<open>\<open>a === b\<close> on two view nodes.\<close>

definition sameNode :: "view_item \<Rightarrow> view_item \<Rightarrow> bool" where
  "sameNode a b = (itemRef a = itemRef b)"

text \<open>\<open>el.is( 'element', name )\<close>.\<close>

definition isElement :: "string \<Rightarrow> view_item \<Rightarrow> bool" where
  "isElement n v = (itemName v = Some n)"

text \<open>\<open>getAttribute( key )\<close>: \<open>undefined\<close> (\<open>None\<close>) when the attribute is absent.\<close>

definition getAttribute :: "view_item \<Rightarrow> string \<Rightarrow> string option" where
  "getAttribute v k = map_of (nodeAttributes (itemNode v)) k"

section \<open>JavaScript numbers and \<open>parseInt\<close>\<close>

text \<open>
  The numbers the scanner computes are sums of \<open>parseInt\<close> results: integers or
  \<open>NaN\<close>. Integers are unbounded here; JavaScript numbers are doubles, so the model is
  exact while every value stays below \<open>2^53\<close> in size and says nothing of the rounding
  above it. A string is the list of the bytes of its UTF-8 encoding.
\<close>

datatype js_number = NaN | Num int

fun js_add :: "js_number \<Rightarrow> js_number \<Rightarrow> js_number" where
  "js_add (Num a) (Num b) = Num (a + b)"
| "js_add _ _ = NaN"

fun js_less :: "js_number \<Rightarrow> js_number \<Rightarrow> bool" where
  "js_less (Num a) (Num b) = (a < b)"
| "js_less _ _ = False"

text \<open>Truthiness of a number: \<open>0\<close> and \<open>NaN\<close> are falsy.\<close>

fun truthy :: "js_number \<Rightarrow> bool" where
  "truthy (Num a) = (a \<noteq> 0)"
| "truthy NaN = False"

text \<open>
  The white space and line terminator characters that \<open>parseInt\<close> skips: of one byte
  (TAB, LF, VT, FF, CR, space), of two bytes (U+00A0) and of three bytes (U+1680, U+2000 to
  U+200A, U+2028, U+2029, U+202F, U+205F, U+3000, U+FEFF).
\<close>

definition isStrWhiteSpace :: "char \<Rightarrow> bool" where
  "isStrWhiteSpace c = (of_char c \<in> {9, 10, 11, 12, 13, 32 :: nat})"

definition isStrWhiteSpace2 :: "char \<Rightarrow> char \<Rightarrow> bool" where
  "isStrWhiteSpace2 a b = ((of_char a :: nat) = 194 \<and> (of_char b :: nat) = 160)"

definition isStrWhiteSpace3 :: "char \<Rightarrow> char \<Rightarrow> char \<Rightarrow> bool" where
  "isStrWhiteSpace3 a b c =
     (let x = (of_char a :: nat); y = (of_char b :: nat); z = (of_char c :: nat)
      in (x = 225 \<and> y = 154 \<and> z = 128) \<or>
         (x = 226 \<and> y = 128 \<and> ((128 \<le> z \<and> z \<le> 138) \<or> z = 168 \<or> z = 169 \<or> z = 175)) \<or>
         (x = 226 \<and> y = 129 \<and> z = 159) \<or>
         (x = 227 \<and> y = 128 \<and> z = 128) \<or>
         (x = 239 \<and> y = 187 \<and> z = 191))"

fun skipWhiteSpace :: "string \<Rightarrow> string" where
  "skipWhiteSpace (a # b # c # s) =
     (if isStrWhiteSpace a then skipWhiteSpace (b # c # s)
      else if isStrWhiteSpace2 a b then skipWhiteSpace (c # s)
      else if isStrWhiteSpace3 a b c then skipWhiteSpace s
      else a # b # c # s)"
| "skipWhiteSpace [a, b] =
     (if isStrWhiteSpace a then skipWhiteSpace [b]
      else if isStrWhiteSpace2 a b then [] else [a, b])"
| "skipWhiteSpace [a] = (if isStrWhiteSpace a then [] else [a])"
| "skipWhiteSpace [] = []"

definition digitValue :: "char \<Rightarrow> nat option" where
  "digitValue c =
     (let k = (of_char c :: nat) in
      if 48 \<le> k \<and> k \<le> 57 then Some (k - 48)
      else if 97 \<le> k \<and> k \<le> 102 then Some (k - 87)
      else if 65 \<le> k \<and> k \<le> 70 then Some (k - 55)
      else None)"

definition isDigit :: "nat \<Rightarrow> char \<Rightarrow> bool" where
  "isDigit radix c = (case digitValue c of None \<Rightarrow> False | Some d \<Rightarrow> d < radix)"

definition digitsValue :: "nat \<Rightarrow> string \<Rightarrow> nat" where
  "digitsValue radix ds = foldl (\<lambda>a c. a * radix + (case digitValue c of None \<Rightarrow> 0 | Some d \<Rightarrow> d)) 0 ds"

text \<open>
  \<open>parseInt( s )\<close> with no radix: leading white space is skipped, then a sign, then
  \<open>0x\<close> or \<open>0X\<close> selects radix 16, then the longest run of digits is read; no digit
  gives \<open>NaN\<close>.
\<close>

definition parseInt :: "string \<Rightarrow> js_number" where
  "parseInt s =
     (let s1 = skipWhiteSpace s;
          (sign, s2) = (case s1 of
                          c # r \<Rightarrow> if c = CHR ''-'' then (- 1 :: int, r)
                                   else if c = CHR ''+'' then (1, r) else (1, s1)
                        | [] \<Rightarrow> (1, s1));
          (radix, s3) = (case s2 of
                           a # b # r \<Rightarrow> if a = CHR ''0'' \<and> (b = CHR ''x'' \<or> b = CHR ''X'')
                                        then (16 :: nat, r) else (10, s2)
                         | _ \<Rightarrow> (10, s2));
          ds = takeWhile (isDigit radix) s3
      in if ds = [] then NaN else Num (sign * int (digitsValue radix ds)))"

section \<open>The table scanner\<close>

text \<open>
  \<open>scanRowForHeadingColumns\<close>: the children that are \<open>th\<close> or \<open>td\<close>, then the loop
  over the leading \<open>th\<close> cells, adding \<open>parseInt( colspan || '1' )\<close> of each.
\<close>

definition colspanOf :: "view_item \<Rightarrow> js_number" where
  "colspanOf th =
     parseInt (case getAttribute th ''colspan'' of
                 None \<Rightarrow> ''1''
               | Some s \<Rightarrow> if s = [] then ''1'' else s)"

fun countLeadingTh :: "view_item list \<Rightarrow> js_number \<Rightarrow> js_number" where
  "countLeadingTh [] headingColumns = headingColumns"
| "countLeadingTh (c # cs) headingColumns =
     (if itemName c = Some ''th''
      then countLeadingTh cs (js_add headingColumns (colspanOf c))
      else headingColumns)"

definition scanRowForHeadingColumns :: "view_item \<Rightarrow> js_number" where
  "scanRowForHeadingColumns tr =
     (let children = filter (\<lambda>child. itemName child = Some ''th'' \<or> itemName child = Some ''td'')
                            (getChildren tr)
      in countLeadingTh children (Num 0))"

text \<open>The local variables of \<open>scanTable\<close>.\<close>

record scan_state =
  nHeadingRows :: nat
  curHeadingColumns :: "js_number option"
  nFooterRows :: nat
  headRows :: "view_item list"
  bodyRows :: "view_item list"
  footRows :: "view_item list"
  firstTheadElement :: "view_item option"
  firstTfootElement :: "view_item option"

definition initialScan :: scan_state where
  "initialScan = \<lparr> nHeadingRows = 0, curHeadingColumns = None, nFooterRows = 0,
                   headRows = [], bodyRows = [], footRows = [],
                   firstTheadElement = None, firstTfootElement = None \<rparr>"

text \<open>\<open>first && tableChild === first\<close>.\<close>

definition isFirst :: "view_item option \<Rightarrow> view_item \<Rightarrow> bool" where
  "isFirst first tableChild = (case first of None \<Rightarrow> False | Some f \<Rightarrow> sameNode tableChild f)"

text \<open>The second disjunct of the heading test: a \<open>tbody\<close> row with at least one child
  whose children are all \<open>th\<close> elements.\<close>

definition allThRow :: "view_item \<Rightarrow> view_item \<Rightarrow> bool" where
  "allThRow tableChild tr =
     (itemName tableChild = Some ''tbody'' \<and> length (getChildren tr) \<noteq> 0 \<and>
      list_all (isElement ''th'') (getChildren tr))"

text \<open>The body of the loop over the rows of one section.\<close>

definition scanRow :: "view_item \<Rightarrow> scan_state \<Rightarrow> view_item \<Rightarrow> scan_state" where
  "scanRow tableChild st tr =
     (if isFirst (firstTheadElement st) tableChild \<or> allThRow tableChild tr
      then st\<lparr> nHeadingRows := nHeadingRows st + 1, headRows := headRows st @ [tr] \<rparr>
      else if isFirst (firstTfootElement st) tableChild
      then st\<lparr> nFooterRows := nFooterRows st + 1, footRows := footRows st @ [tr] \<rparr>
      else
        (let headingCols = scanRowForHeadingColumns tr
         in st\<lparr> bodyRows := bodyRows st @ [tr],
                 curHeadingColumns :=
                   (case curHeadingColumns st of
                      None \<Rightarrow> Some headingCols
                    | Some hc \<Rightarrow> if \<not> truthy hc \<or> js_less headingCols hc
                                then Some headingCols else Some hc) \<rparr>))"

text \<open>The body of the loop over the children of the table.\<close>

definition scanChild :: "scan_state \<Rightarrow> view_item \<Rightarrow> scan_state" where
  "scanChild st tableChild =
     (if itemName tableChild \<noteq> Some ''tbody'' \<and> itemName tableChild \<noteq> Some ''thead''
         \<and> itemName tableChild \<noteq> Some ''tfoot''
      then st
      else
        (let st1 = (if itemName tableChild = Some ''thead'' \<and> firstTheadElement st = None
                    then st\<lparr> firstTheadElement := Some tableChild \<rparr> else st);
             st2 = (if itemName tableChild = Some ''tfoot'' \<and> firstTfootElement st1 = None
                    then st1\<lparr> firstTfootElement := Some tableChild \<rparr> else st1);
             trs = filter (isElement ''tr'') (getChildren tableChild)
         in foldl (scanRow tableChild) st2 trs))"

definition scanLoop :: "view_item \<Rightarrow> scan_state" where
  "scanLoop viewTable = foldl scanChild initialScan (getChildren viewTable)"

record table_meta =
  headingRows :: nat
  headingColumns :: js_number
  footerRows :: nat
  rows :: "view_item list"

definition scanTable :: "view_item \<Rightarrow> table_meta" where
  "scanTable viewTable =
     (let st = scanLoop viewTable
      in \<lparr> headingRows = nHeadingRows st,
           headingColumns = (case curHeadingColumns st of
                               None \<Rightarrow> Num 0
                             | Some hc \<Rightarrow> if truthy hc then hc else Num 0),
           footerRows = nFooterRows st,
           rows = headRows st @ bodyRows st @ footRows st \<rparr>)"

text \<open>
  The classification the loop makes, for stating what it computes: the sections are the
  children that pass the name guard, the rows of a section its \<open>tr\<close> children, and the
  class of a row is the branch \<open>scanRow\<close> takes for it, given the first \<open>thead\<close> and the
  first \<open>tfoot\<close>.
\<close>

datatype row_class = Heading | Body | Footer

definition isSection :: "view_item \<Rightarrow> bool" where
  "isSection c =
     (itemName c = Some ''tbody'' \<or> itemName c = Some ''thead'' \<or> itemName c = Some ''tfoot'')"

definition trsOf :: "view_item \<Rightarrow> view_item list" where
  "trsOf sec = filter (isElement ''tr'') (getChildren sec)"

definition firstNamed :: "string \<Rightarrow> view_item list \<Rightarrow> view_item option" where
  "firstNamed k cs = find (\<lambda>c. itemName c = Some k) cs"

definition rowClass ::
  "view_item option \<Rightarrow> view_item option \<Rightarrow> view_item \<Rightarrow> view_item \<Rightarrow> row_class" where
  "rowClass ft ff sec tr =
     (if isFirst ft sec \<or> allThRow sec tr then Heading
      else if isFirst ff sec then Footer else Body)"

text \<open>All rows of the table with their sections, in source order.\<close>

definition sourceRows :: "view_item list \<Rightarrow> (view_item \<times> view_item) list" where
  "sourceRows secs = concat (map (\<lambda>sec. map (Pair sec) (trsOf sec)) (filter isSection secs))"

definition rowsWith ::
  "view_item option \<Rightarrow> view_item option \<Rightarrow> row_class \<Rightarrow> view_item list \<Rightarrow> view_item list" where
  "rowsWith ft ff k secs =
     map snd (filter (\<lambda>(sec, tr). rowClass ft ff sec tr = k) (sourceRows secs))"

definition classifiedRows :: "view_item \<Rightarrow> (view_item \<times> row_class) list" where
  "classifiedRows t =
     map (\<lambda>(sec, tr). (tr, rowClass (firstNamed ''thead'' (getChildren t))
                                    (firstNamed ''tfoot'' (getChildren t)) sec tr))
         (sourceRows (getChildren t))"

definition rowsOfClass :: "row_class \<Rightarrow> view_item \<Rightarrow> view_item list" where
  "rowsOfClass k t = map fst (filter (\<lambda>p. snd p = k) (classifiedRows t))"

text \<open>The cells of a row, as \<open>scanRowForHeadingColumns\<close> takes them: its \<open>th\<close> and
  \<open>td\<close> children.\<close>

definition cellsOf :: "view_item \<Rightarrow> view_item list" where
  "cellsOf tr = filter (\<lambda>child. itemName child = Some ''th'' \<or> itemName child = Some ''td'')
                       (getChildren tr)"

text \<open>How \<open>headingColumns\<close> changes at a body row whose leading run of heading cells
  is \<open>h\<close>.\<close>

definition headingColumnsStep :: "js_number option \<Rightarrow> js_number \<Rightarrow> js_number option" where
  "headingColumnsStep cur h =
     (case cur of
        None \<Rightarrow> Some h
      | Some hc \<Rightarrow> if \<not> truthy hc \<or> js_less h hc then Some h else Some hc)"

text \<open>How the first \<open>thead\<close> (or \<open>tfoot\<close>) variable changes at one child of the table, and
  what it ends as over a list of children.\<close>

definition nextFirst :: "string \<Rightarrow> view_item option \<Rightarrow> view_item \<Rightarrow> view_item option" where
  "nextFirst k f c = (if itemName c = Some k \<and> f = None then Some c else f)"

definition effFirst :: "string \<Rightarrow> view_item option \<Rightarrow> view_item list \<Rightarrow> view_item option" where
  "effFirst k f secs = (case f of Some x \<Rightarrow> Some x | None \<Rightarrow> firstNamed k secs)"

section \<open>The model (destination) tree and the conversion state\<close>

text \<open>
  Modelled from the spec: the engine (model tree, writer, consumable, dispatcher) is not
  under src/. A semantic node has a name, attributes and ordered children (spec, section
  3); the nodes live in a store, a reference to a node is its index there, and an object,
  once created, stays in the store. A text node has no children. A cursor is a node and
  an offset among its children.
\<close>

datatype model_kind = TextNode string | ElementNode string

record model_node =
  mKind :: model_kind
  mAttrs :: "(string \<times> js_number) list"
  mChildren :: "nat list"
  mParent :: "nat option"

record position =
  posParent :: nat
  posOffset :: nat

record model_range =
  rangeStart :: position
  rangeEnd :: position

text \<open>An aspect of a view node that a converter can claim.\<close>

datatype aspect = AName | AClass string | AAttribute string | AStyle string

record conv_state =
  nodes :: "model_node list"
  consumed :: "(view_ref \<times> aspect) set"

definition getNode :: "conv_state \<Rightarrow> nat \<Rightarrow> model_node option" where
  "getNode s i = (if i < length (nodes s) then Some (nodes s ! i) else None)"

definition childrenOf :: "conv_state \<Rightarrow> nat \<Rightarrow> nat list" where
  "childrenOf s i = (case getNode s i of None \<Rightarrow> [] | Some n \<Rightarrow> mChildren n)"

definition parentOf :: "conv_state \<Rightarrow> nat \<Rightarrow> nat option" where
  "parentOf s i = (case getNode s i of None \<Rightarrow> None | Some n \<Rightarrow> mParent n)"

definition kindOf :: "conv_state \<Rightarrow> nat \<Rightarrow> model_kind option" where
  "kindOf s i = map_option mKind (getNode s i)"

text \<open>\<open>node.is( 'element', name )\<close> and \<open>node.is( 'element' )\<close> on a model node.\<close>

definition isModelElement :: "conv_state \<Rightarrow> string \<Rightarrow> nat \<Rightarrow> bool" where
  "isModelElement s n i = (kindOf s i = Some (ElementNode n))"

definition isElementNode :: "conv_state \<Rightarrow> nat \<Rightarrow> bool" where
  "isElementNode s i =
     (case kindOf s i of Some (ElementNode n) \<Rightarrow> True | _ \<Rightarrow> False)"

text \<open>Modelled from the spec: \<open>element.isEmpty\<close> on a model element and on a view
  element, no children.\<close>

definition isEmpty :: "conv_state \<Rightarrow> nat \<Rightarrow> bool" where
  "isEmpty s i = (childrenOf s i = [])"

definition viewIsEmpty :: "view_item \<Rightarrow> bool" where
  "viewIsEmpty v = (getChildren v = [])"

definition setChildren :: "nat \<Rightarrow> nat list \<Rightarrow> conv_state \<Rightarrow> conv_state" where
  "setChildren i cs s = s\<lparr> nodes := (nodes s)[i := (nodes s ! i)\<lparr> mChildren := cs \<rparr>] \<rparr>"

definition setParent :: "nat \<Rightarrow> nat option \<Rightarrow> conv_state \<Rightarrow> conv_state" where
  "setParent i p s = s\<lparr> nodes := (nodes s)[i := (nodes s ! i)\<lparr> mParent := p \<rparr>] \<rparr>"

subsection \<open>The writer\<close>

text \<open>Modelled from the spec: \<open>writer.createElement( name, attributes )\<close> makes a new element with no parent
  and no children; its reference is returned.\<close>

definition createElement ::
  "string \<Rightarrow> (string \<times> js_number) list \<Rightarrow> conv_state \<Rightarrow> nat \<times> conv_state" where
  "createElement n as s =
     (length (nodes s),
      s\<lparr> nodes := nodes s @ [\<lparr> mKind = ElementNode n, mAttrs = as, mChildren = [],
                                mParent = None \<rparr>] \<rparr>)"

text \<open>Modelled from the spec: \<open>writer.createPositionAt( element, 'end' )\<close> and
  \<open>writer.createPositionAt( element, 0 )\<close>, a node and an offset.\<close>

definition positionAtEnd :: "conv_state \<Rightarrow> nat \<Rightarrow> position" where
  "positionAtEnd s i = \<lparr> posParent = i, posOffset = length (childrenOf s i) \<rparr>"

definition positionAtStart :: "nat \<Rightarrow> position" where
  "positionAtStart i = \<lparr> posParent = i, posOffset = 0 \<rparr>"

text \<open>Modelled from the spec: \<open>position.nodeAfter\<close> is the child at the offset, \<open>null\<close>
  when there is none.\<close>

definition nodeAfter :: "conv_state \<Rightarrow> position \<Rightarrow> nat option" where
  "nodeAfter s p =
     (let cs = childrenOf s (posParent p)
      in if posOffset p < length cs then Some (cs ! posOffset p) else None)"

text \<open>Modelled from the spec: \<open>position.index\<close> is the offset of the cursor within its
  parent.\<close>

definition index :: "position \<Rightarrow> nat" where
  "index p = posOffset p"

text \<open>Modelled from the spec: putting nodes that have no parent in at a position.\<close>

definition attach :: "nat list \<Rightarrow> position \<Rightarrow> conv_state \<Rightarrow> conv_state" where
  "attach ns p s =
     (let cs = childrenOf s (posParent p);
          s1 = setChildren (posParent p) (take (posOffset p) cs @ ns @ drop (posOffset p) cs) s
      in foldl (\<lambda>st n. setParent n (Some (posParent p)) st) s1 ns)"

text \<open>Modelled from the spec: \<open>writer.createRangeOn( node )\<close> is the range from before
  the node to after it; an error (\<open>None\<close>) on a node that has no parent.\<close>

definition indexOf :: "nat \<Rightarrow> nat list \<Rightarrow> nat option" where
  "indexOf n cs = (if n \<in> set cs then Some (length (takeWhile (\<lambda>c. c \<noteq> n) cs)) else None)"

definition createRangeOn :: "conv_state \<Rightarrow> nat \<Rightarrow> model_range option" where
  "createRangeOn s n =
     (case parentOf s n of
        None \<Rightarrow> None
      | Some p \<Rightarrow>
          (case indexOf n (childrenOf s p) of
             None \<Rightarrow> None
           | Some i \<Rightarrow> Some \<lparr> rangeStart = \<lparr> posParent = p, posOffset = i \<rparr>,
                               rangeEnd = \<lparr> posParent = p, posOffset = i + 1 \<rparr> \<rparr>))"

text \<open>
  Modelled from the spec: by \<open>writer.move( range, position )\<close> the nodes of a flat range
  leave their parent and go in at the position, in their order; a position in the same
  parent behind the range is shifted by the nodes that left. An error (\<open>None\<close>) when the
  range is not flat, names children that do not exist, or the position lies inside the
  range or in a moved node.
\<close>

definition move :: "model_range \<Rightarrow> position \<Rightarrow> conv_state \<Rightarrow> conv_state option" where
  "move r target s =
     (let p = posParent (rangeStart r); i = posOffset (rangeStart r);
          j = posOffset (rangeEnd r); cs = childrenOf s p;
          moved = take (j - i) (drop i cs)
      in if posParent (rangeEnd r) \<noteq> p \<or> j < i \<or> length cs < j then None
         else if posParent target = p \<and> i < posOffset target \<and> posOffset target < j then None
         else if posParent target \<in> set moved then None
         else
           (let s1 = setChildren p (take i cs @ drop j cs) s;
                off = (if posParent target = p \<and> j \<le> posOffset target
                       then posOffset target - (j - i) else posOffset target)
            in Some (attach moved \<lparr> posParent = posParent target, posOffset = off \<rparr> s1)))"

text \<open>Modelled from the spec: by \<open>writer.insert( node, position )\<close> a node that has a
  parent is moved, any other node is put in.\<close>

definition insert_node :: "nat \<Rightarrow> position \<Rightarrow> conv_state \<Rightarrow> conv_state option" where
  "insert_node n p s =
     (case parentOf s n of
        None \<Rightarrow> Some (attach [n] p s)
      | Some q \<Rightarrow> (case createRangeOn s n of None \<Rightarrow> None | Some r \<Rightarrow> move r p s))"

text \<open>Modelled from the spec: \<open>writer.insertElement( name, position )\<close> makes a new
  element and puts it in at the position.\<close>

definition insertElement :: "string \<Rightarrow> position \<Rightarrow> conv_state \<Rightarrow> nat \<times> conv_state" where
  "insertElement n p s = (let (e, s1) = createElement n [] s in (e, attach [e] p s1))"

text \<open>
  Modelled from the spec: \<open>createEmptyTableCell\<close> of utils/common.js is not under src/.
  It puts one new, empty cell in at the position (spec, section 4.4, step 7).
\<close>

definition createEmptyTableCell :: "position \<Rightarrow> conv_state \<Rightarrow> nat \<times> conv_state" where
  "createEmptyTableCell p s =
     (let (tableCell, s1) = createElement ''tableCell'' [] s in (tableCell, attach [tableCell] p s1))"

subsection \<open>The consumable\<close>

text \<open>
  Modelled from the spec (section 4.1): \<open>test\<close> is true iff none of the requested
  aspects of the node is consumed, \<open>consume\<close> marks them consumed, \<open>revert\<close> clears
  them.
\<close>

definition test :: "conv_state \<Rightarrow> view_ref \<Rightarrow> aspect list \<Rightarrow> bool" where
  "test s r as = list_all (\<lambda>a. (r, a) \<notin> consumed s) as"

definition consume :: "view_ref \<Rightarrow> aspect list \<Rightarrow> conv_state \<Rightarrow> conv_state" where
  "consume r as s = s\<lparr> consumed := consumed s \<union> Pair r ` set as \<rparr>"

definition revert :: "view_ref \<Rightarrow> aspect list \<Rightarrow> conv_state \<Rightarrow> conv_state" where
  "revert r as s = s\<lparr> consumed := consumed s - Pair r ` set as \<rparr>"

section \<open>The converters\<close>

text \<open>
  A converter is called with the event data (the view item, the cursor in the model and
  the range produced so far) and the conversion interface. The callbacks of the interface
  depend on the converters registered on the dispatcher, so they are parameters: any
  functions on the conversion state. \<open>convertItem\<close> and \<open>convertChildren\<close> return the
  range converted and the new cursor, \<open>safeInsert\<close> says whether the node was put in,
  \<open>updateConversionResult\<close> sets the range and cursor of the data, and \<open>getItems\<close> lists
  the nodes of a range.
\<close>

record conv_data =
  viewItem :: view_item
  modelCursor :: position
  modelRange :: "model_range option"

record conv_result =
  resultRange :: "model_range option"
  resultCursor :: position

record conversionApi =
  convertItem :: "view_item \<Rightarrow> position \<Rightarrow> conv_state \<Rightarrow> conv_result \<times> conv_state"
  convertChildren :: "view_item \<Rightarrow> position \<Rightarrow> conv_state \<Rightarrow> conv_result \<times> conv_state"
  safeInsert :: "nat \<Rightarrow> position \<Rightarrow> conv_state \<Rightarrow> bool \<times> conv_state"
  updateConversionResult :: "nat \<Rightarrow> conv_data \<Rightarrow> conv_state \<Rightarrow> conv_data"
  getItems :: "model_range \<Rightarrow> conv_state \<Rightarrow> nat list"

text \<open>\<open>first( iterator )\<close>: the first value, \<open>null\<close> when there is none.\<close>

definition first :: "'a list \<Rightarrow> 'a option" where
  "first xs = (case xs of [] \<Rightarrow> None | x # _ \<Rightarrow> Some x)"

subsection \<open>\<open>upcastTableFigure\<close>\<close>

definition getViewTableFromFigure :: "view_item \<Rightarrow> view_item option" where
  "getViewTableFromFigure figureView = find (isElement ''table'') (getChildren figureView)"

text \<open>
  The result is \<open>None\<close> where the source raises a \<open>TypeError\<close> or the engine an error:
  \<open>modelRange\<close> of the conversion result is \<open>null\<close>, or the first item of the range is
  not an element, so that no position can be made in it.
\<close>

definition upcastTableFigure ::
  "conversionApi \<Rightarrow> conv_data \<Rightarrow> conv_state \<Rightarrow> (conv_data \<times> conv_state) option" where
  "upcastTableFigure api data s =
     (if \<not> test s (itemRef (viewItem data)) [AName, AClass ''table''] then Some (data, s)
      else
        (case getViewTableFromFigure (viewItem data) of
           None \<Rightarrow> Some (data, s)
         | Some viewTable \<Rightarrow>
             if \<not> test s (itemRef viewTable) [AName] then Some (data, s)
             else
               (let s1 = consume (itemRef (viewItem data)) [AName, AClass ''table''] s;
                    (conversionResult, s2) = convertItem api viewTable (modelCursor data) s1
                in case resultRange conversionResult of
                     None \<Rightarrow> None
                   | Some r \<Rightarrow>
                       (case first (getItems api r s2) of
                          None \<Rightarrow>
                            Some (data, revert (itemRef (viewItem data)) [AName, AClass ''table''] s2)
                        | Some modelTable \<Rightarrow>
                            if \<not> isElementNode s2 modelTable then None
                            else
                              (let s3 = snd (convertChildren api (viewItem data)
                                               (positionAtEnd s2 modelTable) s2)
                               in Some (updateConversionResult api modelTable data s3, s3))))))"

subsection \<open>\<open>upcastTable\<close>\<close>

text \<open>The attributes are set only where the value is truthy, in the order of the source.\<close>

definition tableAttributes :: "table_meta \<Rightarrow> (string \<times> js_number) list" where
  "tableAttributes meta =
     (if truthy (headingColumns meta) then [(''headingColumns'', headingColumns meta)] else []) @
     (if headingRows meta \<noteq> 0 then [(''headingRows'', Num (int (headingRows meta)))] else []) @
     (if footerRows meta \<noteq> 0 then [(''footerRows'', Num (int (footerRows meta)))] else [])"

text \<open>\<open>rows.forEach( row => convertItem( row, createPositionAt( table, 'end' ) ) )\<close>.\<close>

definition convertRows ::
  "conversionApi \<Rightarrow> nat \<Rightarrow> view_item list \<Rightarrow> conv_state \<Rightarrow> conv_state" where
  "convertRows api table rws s =
     foldl (\<lambda>st row. snd (convertItem api row (positionAtEnd st table) st)) s rws"

text \<open>The row and the cell made for a table that is still empty (lines 115 to 121).\<close>

definition repairEmptyTable :: "nat \<Rightarrow> conv_state \<Rightarrow> conv_state option" where
  "repairEmptyTable table s =
     (if isEmpty s table
      then
        (let (row, s1) = createElement ''tableRow'' [] s
         in case insert_node row (positionAtEnd s1 table) s1 of
              None \<Rightarrow> None
            | Some s2 \<Rightarrow> Some (snd (createEmptyTableCell (positionAtEnd s2 row) s2)))
      else Some s)"

definition upcastTable ::
  "conversionApi \<Rightarrow> conv_data \<Rightarrow> conv_state \<Rightarrow> (conv_data \<times> conv_state) option" where
  "upcastTable api data s =
     (let viewTable = viewItem data
      in if \<not> test s (itemRef viewTable) [AName] then Some (data, s)
         else
           (let meta = scanTable viewTable;
                (table, s1) = createElement ''table'' (tableAttributes meta) s;
                (inserted, s2) = safeInsert api table (modelCursor data) s1
            in if \<not> inserted then Some (data, s2)
               else
                 (let s3 = consume (itemRef viewTable) [AName] s2;
                      s4 = convertRows api table (rows meta) s3;
                      s5 = snd (convertChildren api viewTable (positionAtEnd s4 table) s4)
                  in case repairEmptyTable table s5 of
                       None \<Rightarrow> None
                     | Some s6 \<Rightarrow> Some (updateConversionResult api table data s6, s6))))"

subsection \<open>\<open>skipEmptyTableRow\<close>\<close>

text \<open>Whether the converter stops the event.\<close>

definition skipEmptyTableRow :: "conv_data \<Rightarrow> bool" where
  "skipEmptyTableRow data = (viewIsEmpty (viewItem data) \<and> index (modelCursor data) = 0)"

text \<open>
  Modelled from the spec (section 4.2): the dispatcher calls the converters of a node in
  descending priority; a converter that stops the event keeps the later ones from running.
  A converter gives back whether it stopped the event, the data and the state.
\<close>

type_synonym converter = "conv_data \<Rightarrow> conv_state \<Rightarrow> bool \<times> conv_data \<times> conv_state"

fun fire :: "converter list \<Rightarrow> conv_data \<Rightarrow> conv_state \<Rightarrow> conv_data \<times> conv_state" where
  "fire [] data s = (data, s)"
| "fire (h # hs) data s =
     (case h data s of (stopped, data', s') \<Rightarrow> if stopped then (data', s') else fire hs data' s')"

definition skipEmptyTableRowConverter :: converter where
  "skipEmptyTableRowConverter data s = (skipEmptyTableRow data, data, s)"

subsection \<open>\<open>ensureParagraphInTableCell\<close>\<close>

text \<open>The loop that moves the nodes to the end of the paragraph, one by one.\<close>

fun moveAll :: "nat list \<Rightarrow> nat \<Rightarrow> conv_state \<Rightarrow> conv_state option" where
  "moveAll [] paragraph s = Some s"
| "moveAll (n # ns) paragraph s =
     (case createRangeOn s n of
        None \<Rightarrow> None
      | Some r \<Rightarrow>
          (case move r (positionAtEnd s paragraph) s of
             None \<Rightarrow> None
           | Some s' \<Rightarrow> moveAll ns paragraph s'))"

text \<open>
  The converter leaves the data as it is and changes the model only. The result is
  \<open>None\<close> where the source raises an error: there is no node after the start of the range,
  or it is not an element, so that no position can be made in it; or a move fails.
\<close>

definition ensureParagraphInTableCell :: "conv_data \<Rightarrow> conv_state \<Rightarrow> conv_state option" where
  "ensureParagraphInTableCell data s =
     (case modelRange data of
        None \<Rightarrow> Some s
      | Some r \<Rightarrow>
          (case nodeAfter s (rangeStart r) of
             None \<Rightarrow> None
           | Some tableCell \<Rightarrow>
               if \<not> isElementNode s tableCell then None
               else
                 (let modelCursor = positionAtStart tableCell
                  in if viewIsEmpty (viewItem data)
                     then Some (snd (insertElement ''paragraph'' modelCursor s))
                     else
                       (let childNodes = childrenOf s tableCell
                        in if list_all (isModelElement s ''$marker'') childNodes
                           then
                             (let (paragraph, s1) = createElement ''paragraph'' [] s
                              in case insert_node paragraph (positionAtStart tableCell) s1 of
                                   None \<Rightarrow> None
                                 | Some s2 \<Rightarrow> moveAll childNodes paragraph s2)
                           else Some s))))"

text \<open>
  Two points of \<open>upcastTable\<close>, for stating what it does between them: the answer of
  \<open>safeInsert\<close> for the new table element (line 103), and the state reached when the rows
  and the other children have been converted (line 113).
\<close>

definition tableInsertion :: "conversionApi \<Rightarrow> conv_data \<Rightarrow> conv_state \<Rightarrow> bool \<times> conv_state" where
  "tableInsertion api data s =
     safeInsert api (length (nodes s)) (modelCursor data)
       (snd (createElement ''table'' (tableAttributes (scanTable (viewItem data))) s))"

definition convertedState :: "conversionApi \<Rightarrow> conv_data \<Rightarrow> conv_state \<Rightarrow> conv_state" where
  "convertedState api data s =
     (let table = length (nodes s);
          s3 = consume (itemRef (viewItem data)) [AName] (snd (tableInsertion api data s));
          s4 = convertRows api table (rows (scanTable (viewItem data))) s3
      in snd (convertChildren api (viewItem data) (positionAtEnd s4 table) s4))"

text \<open>Callbacks that leave the consumable as it is.\<close>

definition keepsConsumed :: "conversionApi \<Rightarrow> bool" where
  "keepsConsumed api =
     ((\<forall>v p s. consumed (snd (convertItem api v p s)) = consumed s) \<and>
      (\<forall>v p s. consumed (snd (convertChildren api v p s)) = consumed s) \<and>
      (\<forall>n p s. consumed (snd (safeInsert api n p s)) = consumed s))"

section \<open>Concrete inputs\<close>

text \<open>The table of the comment in \<open>scanTable\<close>: a body, then a head, then a body.\<close>

definition exampleTable :: view_item where
  "exampleTable = ViewItem []
     (ViewElement ''table'' []
       [ViewElement ''tbody'' [] [ViewElement ''tr'' [] [ViewElement ''td'' [] [ViewText ''2'']]],
        ViewElement ''thead'' [] [ViewElement ''tr'' [] [ViewElement ''td'' [] [ViewText ''1'']]],
        ViewElement ''tbody'' [] [ViewElement ''tr'' [] [ViewElement ''td'' [] [ViewText ''3'']]]])"

text \<open>A body whose first row starts with a data cell and whose second row starts with one
  heading cell.\<close>

definition headingColumnsTable :: view_item where
  "headingColumnsTable = ViewItem []
     (ViewElement ''table'' []
       [ViewElement ''tbody'' []
         [ViewElement ''tr'' [] [ViewElement ''td'' [] [ViewText ''a'']],
          ViewElement ''tr'' [] [ViewElement ''th'' [] [ViewText ''b''],
                                 ViewElement ''td'' [] [ViewText ''c'']]]])"

text \<open>A body row whose only cell is a heading cell, after a text node.\<close>

definition strayTextTable :: view_item where
  "strayTextTable = ViewItem []
     (ViewElement ''table'' []
       [ViewElement ''tbody'' []
         [ViewElement ''tr'' [] [ViewText '' '', ViewElement ''th'' [] [ViewText ''a'']]]])"

text \<open>A head, a body and a second head whose row has heading cells only.\<close>

definition twoHeadsTable :: view_item where
  "twoHeadsTable = ViewItem []
     (ViewElement ''table'' []
       [ViewElement ''thead'' [] [ViewElement ''tr'' [] [ViewElement ''th'' [] [ViewText ''a'']]],
        ViewElement ''tbody'' [] [ViewElement ''tr'' [] [ViewElement ''td'' [] [ViewText ''b'']]],
        ViewElement ''thead'' [] [ViewElement ''tr'' [] [ViewElement ''th'' [] [ViewText ''c'']]]])"

text \<open>A model that holds a root element only, with nothing consumed.\<close>

definition rootState :: conv_state where
  "rootState = \<lparr> nodes = [\<lparr> mKind = ElementNode ''$root'', mAttrs = [], mChildren = [],
                             mParent = None \<rparr>],
                 consumed = {} \<rparr>"

text \<open>Callbacks that convert nothing; \<open>safeInsert\<close> accepts or rejects every node.\<close>

definition idleApi :: "bool \<Rightarrow> conversionApi" where
  "idleApi accept =
     \<lparr> convertItem = (\<lambda>v p s. (\<lparr> resultRange = Some \<lparr> rangeStart = p, rangeEnd = p \<rparr>,
                                   resultCursor = p \<rparr>, s)),
       convertChildren = (\<lambda>v p s. (\<lparr> resultRange = Some \<lparr> rangeStart = p, rangeEnd = p \<rparr>,
                                       resultCursor = p \<rparr>, s)),
       safeInsert = (\<lambda>n p s. if accept then (True, attach [n] p s) else (False, s)),
       updateConversionResult =
         (\<lambda>n d s. d\<lparr> modelRange := Some \<lparr> rangeStart = \<lparr> posParent = 0, posOffset = 0 \<rparr>,
                                          rangeEnd = \<lparr> posParent = 0, posOffset = 1 \<rparr> \<rparr> \<rparr>),
       getItems = (\<lambda>r s. if rangeStart r = rangeEnd r then []
                          else case nodeAfter s (rangeStart r) of None \<Rightarrow> [] | Some n \<Rightarrow> [n]) \<rparr>"

definition emptyTableData :: conv_data where
  "emptyTableData =
     \<lparr> viewItem = ViewItem [] (ViewElement ''table'' [] []),
       modelCursor = \<lparr> posParent = 0, posOffset = 0 \<rparr>,
       modelRange = None \<rparr>"

text \<open>A figure with the class \<open>table\<close> that holds a table without children.\<close>

definition figureData :: conv_data where
  "figureData =
     \<lparr> viewItem = ViewItem []
                    (ViewElement ''figure'' [(''class'', ''table'')] [ViewElement ''table'' [] []]),
       modelCursor = \<lparr> posParent = 0, posOffset = 0 \<rparr>,
       modelRange = None \<rparr>"

text \<open>
  Callbacks whose \<open>convertItem\<close> runs \<open>upcastTable\<close> on the item (with callbacks that
  convert nothing and a \<open>safeInsert\<close> that accepts or rejects every node) and gives back
  the range of the data or, when the converter set none, the collapsed range at the cursor
  (spec, section 4.2: the produced range may be empty).
\<close>

definition dispatchTableApi :: "bool \<Rightarrow> conversionApi" where
  "dispatchTableApi accept =
     (idleApi accept)
       \<lparr> convertItem :=
           (\<lambda>v p s.
              case upcastTable (idleApi accept)
                     \<lparr> viewItem = v, modelCursor = p, modelRange = None \<rparr> s of
                None \<Rightarrow> (\<lparr> resultRange = None, resultCursor = p \<rparr>, s)
              | Some (d, s') \<Rightarrow>
                  (\<lparr> resultRange = Some (case modelRange d of
                                            None \<Rightarrow> \<lparr> rangeStart = p, rangeEnd = p \<rparr>
                                          | Some r \<Rightarrow> r),
                     resultCursor = modelCursor d \<rparr>, s')) \<rparr>"

text \<open>Callbacks whose \<open>convertItem\<close> puts a paragraph in at the cursor for every item
  and gives back the range on it.\<close>

definition paragraphApi :: conversionApi where
  "paragraphApi =
     (idleApi True)
       \<lparr> convertItem :=
           (\<lambda>v p s.
              (\<lparr> resultRange = Some \<lparr> rangeStart = p,
                                        rangeEnd = p\<lparr> posOffset := Suc (posOffset p) \<rparr> \<rparr>,
                 resultCursor = p\<lparr> posOffset := Suc (posOffset p) \<rparr> \<rparr>,
               snd (insertElement ''paragraph'' p s))) \<rparr>"

text \<open>Callbacks whose \<open>convertItem\<close> gives back no range.\<close>

definition noRangeApi :: conversionApi where
  "noRangeApi =
     (idleApi True)
       \<lparr> convertItem := (\<lambda>v p s. (\<lparr> resultRange = None, resultCursor = p \<rparr>, s)) \<rparr>"

text \<open>A row without children, arriving at the given offset.\<close>

definition emptyRowData :: "nat \<Rightarrow> conv_data" where
  "emptyRowData offset =
     \<lparr> viewItem = ViewItem [0, 0] (ViewElement ''tr'' [] []),
       modelCursor = \<lparr> posParent = 1, posOffset = offset \<rparr>,
       modelRange = None \<rparr>"

text \<open>A model whose root holds one cell; the cell holds the given number of markers
  (elements 2, 3, ...).\<close>

definition cellState :: "nat \<Rightarrow> conv_state" where
  "cellState k =
     \<lparr> nodes = [\<lparr> mKind = ElementNode ''$root'', mAttrs = [], mChildren = [1], mParent = None \<rparr>,
                \<lparr> mKind = ElementNode ''tableCell'', mAttrs = [], mChildren = [2 ..< 2 + k],
                  mParent = Some 0 \<rparr>]
               @ replicate k \<lparr> mKind = ElementNode ''$marker'', mAttrs = [], mChildren = [],
                               mParent = Some 1 \<rparr>,
       consumed = {} \<rparr>"

text \<open>The data of a converted cell: the view cell with the given children, and the range
  on the cell in the root.\<close>

definition cellData :: "view_node list \<Rightarrow> conv_data" where
  "cellData children =
     \<lparr> viewItem = ViewItem [0, 0, 0] (ViewElement ''td'' [] children),
       modelCursor = \<lparr> posParent = 0, posOffset = 1 \<rparr>,
       modelRange = Some \<lparr> rangeStart = \<lparr> posParent = 0, posOffset = 0 \<rparr>,
                            rangeEnd = \<lparr> posParent = 0, posOffset = 1 \<rparr> \<rparr> \<rparr>"

section \<open>What the scanner computes\<close>

subsection \<open>The loop over the rows of a section\<close>

lemma scanRow_firsts:
  "firstTheadElement (scanRow sec st tr) = firstTheadElement st"
  "firstTfootElement (scanRow sec st tr) = firstTfootElement st"
  by (simp_all add: scanRow_def Let_def)

lemma scanRow_buckets:
  "headRows (scanRow sec st tr) = headRows st @
     (if rowClass (firstTheadElement st) (firstTfootElement st) sec tr = Heading then [tr] else [])"
  "bodyRows (scanRow sec st tr) = bodyRows st @
     (if rowClass (firstTheadElement st) (firstTfootElement st) sec tr = Body then [tr] else [])"
  "footRows (scanRow sec st tr) = footRows st @
     (if rowClass (firstTheadElement st) (firstTfootElement st) sec tr = Footer then [tr] else [])"
  "nHeadingRows (scanRow sec st tr) = nHeadingRows st +
     (if rowClass (firstTheadElement st) (firstTfootElement st) sec tr = Heading then 1 else 0)"
  "nFooterRows (scanRow sec st tr) = nFooterRows st +
     (if rowClass (firstTheadElement st) (firstTfootElement st) sec tr = Footer then 1 else 0)"
  by (simp_all add: scanRow_def rowClass_def Let_def)

lemma scanRows_firsts:
  "firstTheadElement (foldl (scanRow sec) st trs) = firstTheadElement st \<and>
   firstTfootElement (foldl (scanRow sec) st trs) = firstTfootElement st"
  by (induction trs arbitrary: st) (simp_all add: scanRow_firsts)

lemma scanRows_buckets:
  "headRows (foldl (scanRow sec) st trs) = headRows st @
     filter (\<lambda>tr. rowClass (firstTheadElement st) (firstTfootElement st) sec tr = Heading) trs \<and>
   bodyRows (foldl (scanRow sec) st trs) = bodyRows st @
     filter (\<lambda>tr. rowClass (firstTheadElement st) (firstTfootElement st) sec tr = Body) trs \<and>
   footRows (foldl (scanRow sec) st trs) = footRows st @
     filter (\<lambda>tr. rowClass (firstTheadElement st) (firstTfootElement st) sec tr = Footer) trs \<and>
   nHeadingRows (foldl (scanRow sec) st trs) = nHeadingRows st +
     length (filter (\<lambda>tr. rowClass (firstTheadElement st) (firstTfootElement st) sec tr = Heading) trs) \<and>
   nFooterRows (foldl (scanRow sec) st trs) = nFooterRows st +
     length (filter (\<lambda>tr. rowClass (firstTheadElement st) (firstTfootElement st) sec tr = Footer) trs)"
  by (induction trs arbitrary: st) (simp_all add: scanRow_firsts scanRow_buckets)

subsection \<open>The loop over the children of the table\<close>

lemma scanChild_firsts:
  "firstTheadElement (scanChild st c) = nextFirst ''thead'' (firstTheadElement st) c"
  "firstTfootElement (scanChild st c) = nextFirst ''tfoot'' (firstTfootElement st) c"
  by (simp_all add: scanChild_def Let_def scanRows_firsts nextFirst_def)

lemma scanChild_buckets:
  fixes st c
  defines "ft \<equiv> nextFirst ''thead'' (firstTheadElement st) c"
      and "ff \<equiv> nextFirst ''tfoot'' (firstTfootElement st) c"
  shows "headRows (scanChild st c) = headRows st @
           (if isSection c then filter (\<lambda>tr. rowClass ft ff c tr = Heading) (trsOf c) else [])"
    and "bodyRows (scanChild st c) = bodyRows st @
           (if isSection c then filter (\<lambda>tr. rowClass ft ff c tr = Body) (trsOf c) else [])"
    and "footRows (scanChild st c) = footRows st @
           (if isSection c then filter (\<lambda>tr. rowClass ft ff c tr = Footer) (trsOf c) else [])"
    and "nHeadingRows (scanChild st c) = nHeadingRows st +
           (if isSection c then length (filter (\<lambda>tr. rowClass ft ff c tr = Heading) (trsOf c)) else 0)"
    and "nFooterRows (scanChild st c) = nFooterRows st +
           (if isSection c then length (filter (\<lambda>tr. rowClass ft ff c tr = Footer) (trsOf c)) else 0)"
  unfolding ft_def ff_def
  by (simp_all add: scanChild_def Let_def scanRows_buckets nextFirst_def isSection_def trsOf_def)

lemma effFirst_step: "effFirst k (nextFirst k f c) rest = effFirst k f (c # rest)"
  by (cases f) (simp_all add: effFirst_def nextFirst_def firstNamed_def)

lemma firstNamed_mem: "firstNamed k cs = Some y \<Longrightarrow> y \<in> set cs"
  unfolding firstNamed_def by (induction cs) (auto split: if_splits)

text \<open>A child that is not among the later children is the first of its kind for the
  loop exactly when it is the first of its kind in the list.\<close>

lemma isFirst_step:
  assumes "itemRef c \<notin> itemRef ` set rest"
  shows "isFirst (nextFirst k f c) c = isFirst (effFirst k f (c # rest)) c"
proof (cases f)
  case (Some x)
  then show ?thesis by (simp add: nextFirst_def effFirst_def)
next
  case None
  show ?thesis
  proof (cases "itemName c = Some k")
    case True
    with None show ?thesis by (simp add: nextFirst_def effFirst_def firstNamed_def)
  next
    case False
    have "\<not> isFirst (firstNamed k rest) c"
    proof (cases "firstNamed k rest")
      case None
      then show ?thesis by (simp add: isFirst_def)
    next
      case (Some y)
      then have "y \<in> set rest" by (rule firstNamed_mem)
      with assms have "itemRef c \<noteq> itemRef y" by force
      with Some show ?thesis by (simp add: isFirst_def sameNode_def)
    qed
    with None False show ?thesis
      by (simp add: nextFirst_def effFirst_def firstNamed_def isFirst_def)
  qed
qed

lemma rowClass_step:
  assumes "itemRef c \<notin> itemRef ` set rest"
  shows "rowClass (nextFirst ''thead'' ft c) (nextFirst ''tfoot'' ff c) c tr =
         rowClass (effFirst ''thead'' ft (c # rest)) (effFirst ''tfoot'' ff (c # rest)) c tr"
  unfolding rowClass_def
  by (simp only: isFirst_step [OF assms])

lemma snd_filter_Pair:
  "map snd (filter (\<lambda>(sec, tr). P sec tr) (map (Pair c) xs)) = filter (P c) xs"
  by (induction xs) simp_all

lemma rowsWith_Nil: "rowsWith a b k [] = []"
  by (simp add: rowsWith_def sourceRows_def)

lemma rowsWith_Cons:
  "rowsWith a b k (c # rest) =
     (if isSection c then filter (\<lambda>tr. rowClass a b c tr = k) (trsOf c) else []) @ rowsWith a b k rest"
  by (simp add: rowsWith_def sourceRows_def snd_filter_Pair)

lemma scanChildren_buckets:
  assumes "distinct (map itemRef secs)"
  shows "headRows (foldl scanChild st secs) = headRows st @
           rowsWith (effFirst ''thead'' (firstTheadElement st) secs)
                    (effFirst ''tfoot'' (firstTfootElement st) secs) Heading secs \<and>
         bodyRows (foldl scanChild st secs) = bodyRows st @
           rowsWith (effFirst ''thead'' (firstTheadElement st) secs)
                    (effFirst ''tfoot'' (firstTfootElement st) secs) Body secs \<and>
         footRows (foldl scanChild st secs) = footRows st @
           rowsWith (effFirst ''thead'' (firstTheadElement st) secs)
                    (effFirst ''tfoot'' (firstTfootElement st) secs) Footer secs \<and>
         nHeadingRows (foldl scanChild st secs) = nHeadingRows st +
           length (rowsWith (effFirst ''thead'' (firstTheadElement st) secs)
                    (effFirst ''tfoot'' (firstTfootElement st) secs) Heading secs) \<and>
         nFooterRows (foldl scanChild st secs) = nFooterRows st +
           length (rowsWith (effFirst ''thead'' (firstTheadElement st) secs)
                    (effFirst ''tfoot'' (firstTfootElement st) secs) Footer secs)"
  using assms
proof (induction secs arbitrary: st)
  case Nil
  show ?case by (simp add: rowsWith_Nil)
next
  case (Cons c rest)
  from Cons.prems have fresh: "itemRef c \<notin> itemRef ` set rest" and d: "distinct (map itemRef rest)"
    by simp_all
  note ih = Cons.IH [OF d, of "scanChild st c"]
  show ?case
    by (simp add: ih scanChild_firsts scanChild_buckets effFirst_step rowsWith_Cons
        rowClass_step [OF fresh])
qed

subsection \<open>The identity of children and rows\<close>

lemma getChildren_refs:
  "map itemRef (getChildren v) = map (\<lambda>i. itemRef v @ [i]) [0..<length (nodeChildren (itemNode v))]"
proof -
  have "map itemRef (getChildren v) =
          map (\<lambda>i. itemRef v @ [i]) (map fst (enumerate 0 (nodeChildren (itemNode v))))"
    unfolding getChildren_def map_map by (rule map_cong) (auto simp: case_prod_unfold)
  then show ?thesis by (simp only: map_fst_enumerate) simp
qed

lemma distinct_getChildren: "distinct (map itemRef (getChildren v))"
  by (simp add: getChildren_refs distinct_map inj_on_def)

lemma rowsWith_rowsOfClass:
  "rowsWith (firstNamed ''thead'' (getChildren t)) (firstNamed ''tfoot'' (getChildren t)) k (getChildren t)
     = rowsOfClass k t"
  by (simp add: rowsWith_def rowsOfClass_def classifiedRows_def filter_map comp_def case_prod_unfold)

lemma scanLoop_buckets:
  "headRows (scanLoop t) = rowsOfClass Heading t"
  "bodyRows (scanLoop t) = rowsOfClass Body t"
  "footRows (scanLoop t) = rowsOfClass Footer t"
  "nHeadingRows (scanLoop t) = length (rowsOfClass Heading t)"
  "nFooterRows (scanLoop t) = length (rowsOfClass Footer t)"
  using scanChildren_buckets [OF distinct_getChildren, of initialScan t]
  by (simp_all add: scanLoop_def initialScan_def effFirst_def rowsWith_rowsOfClass)

lemma sourceRows_set:
  "set (sourceRows cs) = (\<Union>sec\<in>{s \<in> set cs. isSection s}. Pair sec ` set (trsOf sec))"
  unfolding sourceRows_def set_concat set_map set_filter image_image ..

lemma sourceRows_iff:
  "(sec, tr) \<in> set (sourceRows cs) \<longleftrightarrow> sec \<in> set cs \<and> isSection sec \<and> tr \<in> set (trsOf sec)"
  unfolding sourceRows_set by blast

lemma rowsWith_iff:
  "tr \<in> set (rowsWith a b k cs) \<longleftrightarrow>
     (\<exists>sec. (sec, tr) \<in> set (sourceRows cs) \<and> rowClass a b sec tr = k)"
proof -
  have "set (rowsWith a b k cs) = snd ` {p \<in> set (sourceRows cs). rowClass a b (fst p) (snd p) = k}"
    unfolding rowsWith_def set_map set_filter case_prod_unfold ..
  then show ?thesis by (simp add: image_iff)
qed

lemma trsOf_ref: "tr \<in> set (trsOf sec) \<Longrightarrow> butlast (itemRef tr) = itemRef sec"
proof -
  assume "tr \<in> set (trsOf sec)"
  then have "itemRef tr \<in> set (map itemRef (getChildren sec))" by (auto simp: trsOf_def)
  then show ?thesis unfolding getChildren_refs by auto
qed

lemma section_of_row:
  assumes "distinct (map itemRef cs)" "sec \<in> set cs" "sec' \<in> set cs"
    and "tr \<in> set (trsOf sec)" "tr \<in> set (trsOf sec')"
  shows "sec = sec'"
proof -
  have "itemRef sec = itemRef sec'" using assms(4,5) trsOf_ref by metis
  with assms(1-3) show ?thesis by (meson distinct_map inj_onD)
qed

text \<open>A row of the j-th child is in the bucket of its own class and in no other.\<close>

lemma row_in_bucket:
  assumes "j < length (getChildren t)" "isSection (getChildren t ! j)"
    and "tr \<in> set (trsOf (getChildren t ! j))"
  shows "tr \<in> set (rowsOfClass k t) \<longleftrightarrow>
         rowClass (firstNamed ''thead'' (getChildren t)) (firstNamed ''tfoot'' (getChildren t))
           (getChildren t ! j) tr = k"
proof -
  let ?cs = "getChildren t"
  let ?c = "\<lambda>sec. rowClass (firstNamed ''thead'' ?cs) (firstNamed ''tfoot'' ?cs) sec tr"
  have mem: "?cs ! j \<in> set ?cs" using assms(1) by simp
  have "tr \<in> set (rowsOfClass k t) \<longleftrightarrow> (\<exists>sec. (sec, tr) \<in> set (sourceRows ?cs) \<and> ?c sec = k)"
    unfolding rowsWith_rowsOfClass [symmetric] by (rule rowsWith_iff)
  also have "\<dots> \<longleftrightarrow> ?c (?cs ! j) = k"
    using section_of_row [OF distinct_getChildren _ mem _ assms(3)] mem assms(2,3)
    unfolding sourceRows_iff by metis
  finally show ?thesis .
qed

lemma isFirst_firstNamed:
  assumes "j < length cs" "distinct (map itemRef cs)"
  shows "isFirst (firstNamed k cs) (cs ! j) \<longleftrightarrow>
         itemName (cs ! j) = Some k \<and> (\<forall>i<j. itemName (cs ! i) \<noteq> Some k)"
proof (cases "firstNamed k cs")
  case None
  then have "\<forall>x\<in>set cs. itemName x \<noteq> Some k"
    unfolding firstNamed_def find_None_iff by blast
  with assms(1) None show ?thesis by (auto simp: isFirst_def)
next
  case (Some y)
  then obtain i where i: "i < length cs" "itemName (cs ! i) = Some k" "y = cs ! i"
    "\<forall>m<i. itemName (cs ! m) \<noteq> Some k"
    by (auto simp: firstNamed_def find_Some_iff)
  have eq: "itemRef (cs ! j) = itemRef (cs ! i) \<longleftrightarrow> j = i"
    using assms i(1) by (metis distinct_conv_nth length_map nth_map)
  have "isFirst (firstNamed k cs) (cs ! j) \<longleftrightarrow> j = i"
    by (simp add: Some i(3) isFirst_def sameNode_def eq)
  also have "\<dots> \<longleftrightarrow> itemName (cs ! j) = Some k \<and> (\<forall>m<j. itemName (cs ! m) \<noteq> Some k)"
    using i by (metis linorder_neqE_nat)
  finally show ?thesis .
qed

lemma later_section_class:
  assumes j: "j < length (getChildren t)"
    and k: "k = ''thead'' \<or> k = ''tfoot''"
    and nm: "itemName (getChildren t ! j) = Some k"
  shows "rowClass (firstNamed ''thead'' (getChildren t)) (firstNamed ''tfoot'' (getChildren t))
           (getChildren t ! j) tr =
         (if \<exists>i<j. itemName (getChildren t ! i) = Some k then Body
          else if k = ''thead'' then Heading else Footer)"
  using k nm
  by (auto simp: rowClass_def allThRow_def isFirst_firstNamed [OF j distinct_getChildren])

lemma tbody_row_class:
  assumes j: "j < length (getChildren t)"
    and nm: "itemName (getChildren t ! j) = Some ''tbody''"
  shows "rowClass (firstNamed ''thead'' (getChildren t)) (firstNamed ''tfoot'' (getChildren t))
           (getChildren t ! j) tr =
         (if getChildren tr \<noteq> [] \<and> list_all (isElement ''th'') (getChildren tr) then Heading else Body)"
  using nm
  by (simp add: rowClass_def allThRow_def isFirst_firstNamed [OF j distinct_getChildren])

subsection \<open>The heading columns\<close>

lemma scanRow_headingColumns:
  "curHeadingColumns (scanRow sec st tr) =
     (if rowClass (firstTheadElement st) (firstTfootElement st) sec tr = Body
      then headingColumnsStep (curHeadingColumns st) (scanRowForHeadingColumns tr)
      else curHeadingColumns st)"
  by (simp add: scanRow_def rowClass_def Let_def headingColumnsStep_def)

lemma scanRows_headingColumns:
  "curHeadingColumns (foldl (scanRow sec) st trs) =
     foldl headingColumnsStep (curHeadingColumns st)
       (map scanRowForHeadingColumns
          (filter (\<lambda>tr. rowClass (firstTheadElement st) (firstTfootElement st) sec tr = Body) trs))"
  by (induction trs arbitrary: st) (simp_all add: scanRow_firsts scanRow_headingColumns)

lemma scanChild_headingColumns:
  "curHeadingColumns (scanChild st c) =
     foldl headingColumnsStep (curHeadingColumns st)
       (map scanRowForHeadingColumns
          (if isSection c
           then filter (\<lambda>tr. rowClass (nextFirst ''thead'' (firstTheadElement st) c)
                                       (nextFirst ''tfoot'' (firstTfootElement st) c) c tr = Body)
                  (trsOf c)
           else []))"
  by (simp add: scanChild_def Let_def scanRows_headingColumns nextFirst_def isSection_def trsOf_def)

lemma scanChildren_headingColumns:
  assumes "distinct (map itemRef secs)"
  shows "curHeadingColumns (foldl scanChild st secs) =
           foldl headingColumnsStep (curHeadingColumns st)
             (map scanRowForHeadingColumns
                (rowsWith (effFirst ''thead'' (firstTheadElement st) secs)
                          (effFirst ''tfoot'' (firstTfootElement st) secs) Body secs))"
  using assms
proof (induction secs arbitrary: st)
  case Nil
  show ?case by (simp add: rowsWith_Nil)
next
  case (Cons c rest)
  from Cons.prems have fresh: "itemRef c \<notin> itemRef ` set rest" and d: "distinct (map itemRef rest)"
    by simp_all
  note ih = Cons.IH [OF d, of "scanChild st c"]
  show ?case
    by (simp add: ih scanChild_firsts scanChild_headingColumns effFirst_step rowsWith_Cons
        rowClass_step [OF fresh])
qed

lemma scanLoop_headingColumns:
  "curHeadingColumns (scanLoop t) =
     foldl headingColumnsStep None (map scanRowForHeadingColumns (rowsOfClass Body t))"
  using scanChildren_headingColumns [OF distinct_getChildren, of initialScan t]
  by (simp add: scanLoop_def initialScan_def effFirst_def rowsWith_rowsOfClass)

lemma headingColumnsStep_positive:
  assumes "0 < m" "\<forall>r\<in>set rs. 0 < r"
  shows "foldl headingColumnsStep (Some (Num m)) (map Num rs) = Some (Num (Min (insert m (set rs))))"
  using assms
proof (induction rs arbitrary: m)
  case Nil
  then show ?case by simp
next
  case (Cons r rs)
  have step: "headingColumnsStep (Some (Num m)) (Num r) = Some (Num (min r m))"
    using Cons.prems by (simp add: headingColumnsStep_def min_def)
  have "Min (insert (min r m) (set rs)) = Min (insert m (insert r (set rs)))"
  proof (cases "set rs = {}")
    case True
    then show ?thesis by (simp add: min.commute)
  next
    case False
    then show ?thesis by (simp add: min.commute min.left_commute min.assoc)
  qed
  with Cons.IH [of "min r m"] Cons.prems step show ?case by simp
qed

text \<open>What \<open>scanTable\<close> returns as \<open>headingColumns\<close>: 0 when no row is classified
  Body, and the minimum of the leading runs of the Body rows when every run is a number
  above 0.\<close>

lemma headingColumns_of_positive_runs:
  "rowsOfClass Body t = [] \<Longrightarrow> headingColumns (scanTable t) = Num 0"
  "map scanRowForHeadingColumns (rowsOfClass Body t) = map Num rs \<Longrightarrow> rs \<noteq> [] \<Longrightarrow>
     \<forall>r\<in>set rs. 0 < r \<Longrightarrow> headingColumns (scanTable t) = Num (Min (set rs))"
proof -
  show "rowsOfClass Body t = [] \<Longrightarrow> headingColumns (scanTable t) = Num 0"
    by (simp add: scanTable_def Let_def scanLoop_headingColumns)
next
  assume runs: "map scanRowForHeadingColumns (rowsOfClass Body t) = map Num rs"
    and ne: "rs \<noteq> []" and pos: "\<forall>r\<in>set rs. 0 < r"
  from ne obtain r rest where rs: "rs = r # rest" by (cases rs) auto
  with pos have r: "0 < r" and rest: "\<forall>x\<in>set rest. 0 < x" by simp_all
  have "curHeadingColumns (scanLoop t) = foldl headingColumnsStep (Some (Num r)) (map Num rest)"
    by (simp add: scanLoop_headingColumns runs rs headingColumnsStep_def)
  also have "\<dots> = Some (Num (Min (set rs)))"
    using headingColumnsStep_positive [OF r rest] by (simp add: rs)
  finally have cur: "curHeadingColumns (scanLoop t) = Some (Num (Min (set rs)))" .
  have "0 < Min (set rs)" using ne pos by simp
  with cur show "headingColumns (scanTable t) = Num (Min (set rs))"
    by (simp add: scanTable_def Let_def)
qed

section \<open>The store\<close>

lemma getNode_setChildren:
  "getNode (setChildren i cs s) j =
     (if j = i \<and> i < length (nodes s) then Some ((nodes s ! i)\<lparr> mChildren := cs \<rparr>) else getNode s j)"
  by (simp add: getNode_def setChildren_def)

lemma getNode_setParent:
  "getNode (setParent i p s) j =
     (if j = i \<and> i < length (nodes s) then Some ((nodes s ! i)\<lparr> mParent := p \<rparr>) else getNode s j)"
  by (simp add: getNode_def setParent_def)

lemma length_setChildren: "length (nodes (setChildren i cs s)) = length (nodes s)"
  by (simp add: setChildren_def)

lemma length_setParent: "length (nodes (setParent i p s)) = length (nodes s)"
  by (simp add: setParent_def)

lemma consumed_setChildren: "consumed (setChildren i cs s) = consumed s"
  by (simp add: setChildren_def)

lemma consumed_setParent: "consumed (setParent i p s) = consumed s"
  by (simp add: setParent_def)

lemma childrenOf_setChildren:
  "childrenOf (setChildren i cs s) j =
     (if j = i \<and> i < length (nodes s) then cs else childrenOf s j)"
  by (simp add: childrenOf_def getNode_setChildren)

lemma parentOf_setChildren: "parentOf (setChildren i cs s) j = parentOf s j"
  by (simp add: parentOf_def getNode_setChildren) (simp add: getNode_def)

lemma kindOf_setChildren: "kindOf (setChildren i cs s) j = kindOf s j"
  by (simp add: kindOf_def getNode_setChildren) (simp add: getNode_def)

lemma childrenOf_setParent: "childrenOf (setParent i p s) j = childrenOf s j"
  by (simp add: childrenOf_def getNode_setParent) (simp add: getNode_def)

lemma parentOf_setParent:
  "parentOf (setParent i p s) j = (if j = i \<and> i < length (nodes s) then p else parentOf s j)"
  by (simp add: parentOf_def getNode_setParent)

lemma kindOf_setParent: "kindOf (setParent i p s) j = kindOf s j"
  by (simp add: kindOf_def getNode_setParent) (simp add: getNode_def)

lemmas store_set =
  length_setChildren length_setParent consumed_setChildren consumed_setParent
  childrenOf_setChildren parentOf_setChildren kindOf_setChildren
  childrenOf_setParent parentOf_setParent kindOf_setParent

lemma setParents_facts:
  "length (nodes (foldl (\<lambda>st n. setParent n q st) s ns)) = length (nodes s) \<and>
   consumed (foldl (\<lambda>st n. setParent n q st) s ns) = consumed s \<and>
   childrenOf (foldl (\<lambda>st n. setParent n q st) s ns) j = childrenOf s j \<and>
   kindOf (foldl (\<lambda>st n. setParent n q st) s ns) j = kindOf s j \<and>
   parentOf (foldl (\<lambda>st n. setParent n q st) s ns) j =
     (if j \<in> set ns \<and> j < length (nodes s) then q else parentOf s j)"
  by (induction ns arbitrary: s) (auto simp: store_set)

lemma attach_facts:
  "length (nodes (attach ns p s)) = length (nodes s)"
  "consumed (attach ns p s) = consumed s"
  "kindOf (attach ns p s) j = kindOf s j"
  "childrenOf (attach ns p s) j =
     (if j = posParent p \<and> posParent p < length (nodes s)
      then take (posOffset p) (childrenOf s j) @ ns @ drop (posOffset p) (childrenOf s j)
      else childrenOf s j)"
  "parentOf (attach ns p s) j =
     (if j \<in> set ns \<and> j < length (nodes s) then Some (posParent p) else parentOf s j)"
  by (simp_all add: attach_def Let_def setParents_facts store_set)

lemma createElement_facts:
  "fst (createElement n as s) = length (nodes s)"
  "length (nodes (snd (createElement n as s))) = Suc (length (nodes s))"
  "consumed (snd (createElement n as s)) = consumed s"
  "kindOf (snd (createElement n as s)) j =
     (if j = length (nodes s) then Some (ElementNode n) else kindOf s j)"
  "childrenOf (snd (createElement n as s)) j = (if j = length (nodes s) then [] else childrenOf s j)"
  "parentOf (snd (createElement n as s)) j = (if j = length (nodes s) then None else parentOf s j)"
  by (auto simp: createElement_def kindOf_def childrenOf_def parentOf_def getNode_def nth_append)

lemma isElementNode_alloc: "isElementNode s i \<Longrightarrow> i < length (nodes s)"
  by (auto simp: isElementNode_def kindOf_def getNode_def split: if_splits option.splits)

lemma parentOf_alloc: "parentOf s i = Some p \<Longrightarrow> i < length (nodes s)"
  by (auto simp: parentOf_def getNode_def split: if_splits)

lemma insert_fresh:
  "insert_node (length (nodes s)) p (snd (createElement n as s)) =
     Some (attach [length (nodes s)] p (snd (createElement n as s)))"
  by (simp add: insert_node_def createElement_facts)

lemma positionAtEnd_createElement:
  "par < length (nodes s) \<Longrightarrow> positionAtEnd (snd (createElement n as s)) par = positionAtEnd s par"
  by (simp add: positionAtEnd_def createElement_facts)

text \<open>A new element put in at the end of an element of the store.\<close>

lemma appendNew:
  assumes "par < length (nodes s)"
  shows "length (nodes (attach [length (nodes s)] (positionAtEnd s par) (snd (createElement n as s))))
           = Suc (length (nodes s))"
    and "consumed (attach [length (nodes s)] (positionAtEnd s par) (snd (createElement n as s)))
           = consumed s"
    and "kindOf (attach [length (nodes s)] (positionAtEnd s par) (snd (createElement n as s))) j
           = (if j = length (nodes s) then Some (ElementNode n) else kindOf s j)"
    and "childrenOf (attach [length (nodes s)] (positionAtEnd s par) (snd (createElement n as s))) j
           = (if j = par then childrenOf s par @ [length (nodes s)]
              else if j = length (nodes s) then [] else childrenOf s j)"
    and "parentOf (attach [length (nodes s)] (positionAtEnd s par) (snd (createElement n as s))) j
           = (if j = length (nodes s) then Some par else parentOf s j)"
  using assms by (auto simp: attach_facts createElement_facts positionAtEnd_def)

section \<open>The table builder\<close>

lemma repairEmptyTable_nonempty:
  "\<not> isEmpty s table \<Longrightarrow> repairEmptyTable table s = Some s"
  by (simp add: repairEmptyTable_def)

lemma repairEmptyTable_eq:
  assumes alloc: "table < length (nodes s)" and empty: "isEmpty s table"
  shows "repairEmptyTable table s =
           Some (attach [Suc (length (nodes s))]
                   (positionAtEnd (attach [length (nodes s)] (positionAtEnd s table)
                                     (snd (createElement ''tableRow'' [] s))) (length (nodes s)))
                   (snd (createElement ''tableCell'' []
                      (attach [length (nodes s)] (positionAtEnd s table)
                         (snd (createElement ''tableRow'' [] s))))))"
  using empty
  by (simp add: repairEmptyTable_def case_prod_unfold Let_def createElement_facts insert_fresh
      positionAtEnd_createElement [OF alloc] createEmptyTableCell_def appendNew(1) [OF alloc])

lemma repairEmptyTable_empty:
  assumes alloc: "table < length (nodes s)" and empty: "isEmpty s table"
  shows "\<exists>s'. repairEmptyTable table s = Some s' \<and>
           childrenOf s' table = [length (nodes s)] \<and>
           kindOf s' (length (nodes s)) = Some (ElementNode ''tableRow'') \<and>
           childrenOf s' (length (nodes s)) = [Suc (length (nodes s))] \<and>
           kindOf s' (Suc (length (nodes s))) = Some (ElementNode ''tableCell'') \<and>
           childrenOf s' (Suc (length (nodes s))) = [] \<and>
           parentOf s' (length (nodes s)) = Some table \<and>
           parentOf s' (Suc (length (nodes s))) = Some (length (nodes s)) \<and>
           length (nodes s') = length (nodes s) + 2 \<and> consumed s' = consumed s"
proof -
  let ?s2 = "attach [length (nodes s)] (positionAtEnd s table) (snd (createElement ''tableRow'' [] s))"
  let ?s4 = "attach [length (nodes ?s2)] (positionAtEnd ?s2 (length (nodes s)))
               (snd (createElement ''tableCell'' [] ?s2))"
  have e: "childrenOf s table = []" using empty by (simp add: isEmpty_def)
  have ne: "table \<noteq> length (nodes s)" "table \<noteq> Suc (length (nodes s))" using alloc by simp_all
  note a2 = appendNew [OF alloc, of "''tableRow''" "[]"]
  have row: "length (nodes s) < length (nodes ?s2)" by (simp add: a2)
  note a4 = appendNew [OF row, of "''tableCell''" "[]", unfolded a2(1)]
  have r: "repairEmptyTable table s = Some ?s4"
    by (simp add: repairEmptyTable_eq [OF alloc empty] a2(1))
  have "childrenOf ?s4 table = [length (nodes s)]"
    using ne by (simp add: a4 a2 e)
  moreover have "childrenOf ?s4 (length (nodes s)) = [Suc (length (nodes s))]"
    using ne by (simp add: a4 a2)
  moreover have "childrenOf ?s4 (Suc (length (nodes s))) = []"
    using ne by (simp add: a4 a2)
  moreover have "kindOf ?s4 (length (nodes s)) = Some (ElementNode ''tableRow'')"
    by (simp add: a4 a2)
  moreover have "kindOf ?s4 (Suc (length (nodes s))) = Some (ElementNode ''tableCell'')"
    by (simp add: a4 a2)
  moreover have "parentOf ?s4 (length (nodes s)) = Some table"
    by (simp add: a4 a2)
  moreover have "parentOf ?s4 (Suc (length (nodes s))) = Some (length (nodes s))"
    by (simp add: a4 a2)
  moreover have "length (nodes ?s4) = length (nodes s) + 2" "consumed ?s4 = consumed s"
    by (simp_all add: a4 a2)
  ultimately show ?thesis using r by blast
qed

lemma repairEmptyTable_consumed:
  "\<exists>s'. repairEmptyTable table s = Some s' \<and> consumed s' = consumed s"
  by (simp add: repairEmptyTable_def case_prod_unfold Let_def createElement_facts insert_fresh
      createEmptyTableCell_def attach_facts)

lemma upcastTable_rejected:
  assumes "test s (itemRef (viewItem data)) [AName]" "\<not> fst (tableInsertion api data s)"
  shows "upcastTable api data s = Some (data, snd (tableInsertion api data s))"
  using assms
  by (simp add: upcastTable_def tableInsertion_def Let_def case_prod_unfold createElement_facts)

lemma upcastTable_accepted:
  assumes "test s (itemRef (viewItem data)) [AName]" "fst (tableInsertion api data s)"
  shows "upcastTable api data s =
           (case repairEmptyTable (length (nodes s)) (convertedState api data s) of
              None \<Rightarrow> None
            | Some s6 \<Rightarrow> Some (updateConversionResult api (length (nodes s)) data s6, s6))"
  using assms
  by (simp add: upcastTable_def tableInsertion_def convertedState_def Let_def case_prod_unfold
      createElement_facts cong: option.case_cong)

lemma convertRows_consumed:
  assumes "keepsConsumed api"
  shows "consumed (convertRows api table rws s) = consumed s"
proof -
  have "consumed (foldl (\<lambda>st row. snd (convertItem api row (positionAtEnd st table) st)) s rws)
          = consumed s"
    using assms by (induction rws arbitrary: s) (simp_all add: keepsConsumed_def)
  then show ?thesis by (simp add: convertRows_def)
qed

lemma convertedState_consumed:
  assumes "keepsConsumed api"
  shows "consumed (convertedState api data s) = consumed s \<union> {(itemRef (viewItem data), AName)}"
proof -
  have "consumed (snd (tableInsertion api data s)) = consumed s"
    using assms by (simp add: tableInsertion_def keepsConsumed_def createElement_facts)
  then show ?thesis
    using assms
    by (simp add: convertedState_def Let_def convertRows_consumed consume_def)
      (simp add: keepsConsumed_def convertRows_consumed consume_def)
qed

section \<open>The repair of a table cell\<close>

lemma indexOf_second: "p \<noteq> m \<Longrightarrow> indexOf m (p # m # ms) = Some 1"
  by (simp add: indexOf_def)

text \<open>One round of the loop: the first node behind the paragraph leaves the cell and
  becomes the last child of the paragraph.\<close>

lemma move_one:
  assumes cs: "childrenOf s c = p # m # ms"
    and par: "parentOf s m = Some c"
    and ne: "p \<noteq> c" "p \<noteq> m"
    and alloc: "c < length (nodes s)" "p < length (nodes s)"
  shows "\<exists>s'. (case createRangeOn s m of
                 None \<Rightarrow> None
               | Some r \<Rightarrow> move r (positionAtEnd s p) s) = Some s' \<and>
           childrenOf s' c = p # ms \<and>
           childrenOf s' p = childrenOf s p @ [m] \<and>
           parentOf s' m = Some p \<and>
           (\<forall>j. j \<noteq> m \<longrightarrow> parentOf s' j = parentOf s j) \<and>
           (\<forall>j. j \<noteq> c \<and> j \<noteq> p \<longrightarrow> childrenOf s' j = childrenOf s j) \<and>
           (\<forall>j. kindOf s' j = kindOf s j) \<and>
           length (nodes s') = length (nodes s) \<and> consumed s' = consumed s"
proof -
  have m: "m < length (nodes s)" using par by (rule parentOf_alloc)
  have r: "createRangeOn s m = Some \<lparr> rangeStart = \<lparr> posParent = c, posOffset = 1 \<rparr>,
                                       rangeEnd = \<lparr> posParent = c, posOffset = 2 \<rparr> \<rparr>"
    using ne by (simp add: createRangeOn_def par cs indexOf_second)
  let ?s1 = "setChildren c (p # ms) s"
  let ?s' = "attach [m] \<lparr> posParent = p, posOffset = length (childrenOf s p) \<rparr> ?s1"
  have mv: "move \<lparr> rangeStart = \<lparr> posParent = c, posOffset = 1 \<rparr>,
                    rangeEnd = \<lparr> posParent = c, posOffset = 2 \<rparr> \<rparr> (positionAtEnd s p) s = Some ?s'"
    using ne by (simp add: move_def Let_def cs positionAtEnd_def)
  have "childrenOf ?s' c = p # ms" "childrenOf ?s' p = childrenOf s p @ [m]"
    "parentOf ?s' m = Some p"
    using ne alloc m by (simp_all add: attach_facts store_set)
  moreover have "\<forall>j. j \<noteq> m \<longrightarrow> parentOf ?s' j = parentOf s j"
    "\<forall>j. j \<noteq> c \<and> j \<noteq> p \<longrightarrow> childrenOf ?s' j = childrenOf s j"
    "\<forall>j. kindOf ?s' j = kindOf s j"
    "length (nodes ?s') = length (nodes s)" "consumed ?s' = consumed s"
    by (simp_all add: attach_facts store_set)
  ultimately show ?thesis by (simp only: r mv option.case) blast
qed

lemma moveAll_markers:
  assumes "childrenOf s c = p # ms"
    and "distinct ms" "p \<notin> set ms" "p \<noteq> c"
    and "c < length (nodes s)" "p < length (nodes s)"
    and "\<forall>m\<in>set ms. parentOf s m = Some c"
  shows "\<exists>s'. moveAll ms p s = Some s' \<and>
           childrenOf s' c = [p] \<and>
           childrenOf s' p = childrenOf s p @ ms \<and>
           (\<forall>m\<in>set ms. parentOf s' m = Some p) \<and>
           (\<forall>j. j \<notin> set ms \<longrightarrow> parentOf s' j = parentOf s j) \<and>
           (\<forall>j. j \<noteq> c \<and> j \<noteq> p \<longrightarrow> childrenOf s' j = childrenOf s j) \<and>
           (\<forall>j. kindOf s' j = kindOf s j) \<and>
           length (nodes s') = length (nodes s) \<and> consumed s' = consumed s"
  using assms
proof (induction ms arbitrary: s)
  case Nil
  then show ?case by simp
next
  case (Cons m ms)
  from Cons.prems have pm: "p \<noteq> m" and par: "parentOf s m = Some c" by auto
  from move_one [OF Cons.prems(1) par Cons.prems(4) pm Cons.prems(5,6)]
  obtain s1 where s1:
    "(case createRangeOn s m of None \<Rightarrow> None | Some r \<Rightarrow> move r (positionAtEnd s p) s) = Some s1"
    "childrenOf s1 c = p # ms" "childrenOf s1 p = childrenOf s p @ [m]"
    "parentOf s1 m = Some p" "\<forall>j. j \<noteq> m \<longrightarrow> parentOf s1 j = parentOf s j"
    "\<forall>j. j \<noteq> c \<and> j \<noteq> p \<longrightarrow> childrenOf s1 j = childrenOf s j"
    "\<forall>j. kindOf s1 j = kindOf s j"
    "length (nodes s1) = length (nodes s)" "consumed s1 = consumed s"
    by blast
  have step: "moveAll (m # ms) p s = moveAll ms p s1"
    using s1(1) by (cases "createRangeOn s m") auto
  have pre: "distinct ms" "p \<notin> set ms" "c < length (nodes s1)" "p < length (nodes s1)"
    "\<forall>x\<in>set ms. parentOf s1 x = Some c"
    using Cons.prems s1(5,8) by auto
  from Cons.IH [OF s1(2) pre(1,2) Cons.prems(4) pre(3,4,5)]
  obtain s' where s':
    "moveAll ms p s1 = Some s'" "childrenOf s' c = [p]" "childrenOf s' p = childrenOf s1 p @ ms"
    "\<forall>x\<in>set ms. parentOf s' x = Some p" "\<forall>j. j \<notin> set ms \<longrightarrow> parentOf s' j = parentOf s1 j"
    "\<forall>j. j \<noteq> c \<and> j \<noteq> p \<longrightarrow> childrenOf s' j = childrenOf s1 j"
    "\<forall>j. kindOf s' j = kindOf s1 j"
    "length (nodes s') = length (nodes s1)" "consumed s' = consumed s1"
    by blast
  have m_notin: "m \<notin> set ms" using Cons.prems(2) by simp
  have "parentOf s' m = Some p" using s'(5) m_notin s1(4) by simp
  with s'(4) have all: "\<forall>x\<in>set (m # ms). parentOf s' x = Some p" by simp
  have others: "\<forall>j. j \<notin> set (m # ms) \<longrightarrow> parentOf s' j = parentOf s j"
    using s'(5) s1(5) by simp
  show ?case
    using step s' s1 all others by simp
qed

text \<open>The children of a cell are linked to it: they are distinct and the cell is the
  parent of each.\<close>

lemma markers_branch:
  assumes el: "isElementNode s cell"
    and d: "distinct (childrenOf s cell)"
    and par: "list_all (\<lambda>m. parentOf s m = Some cell) (childrenOf s cell)"
  shows "\<exists>s'. (let (paragraph, s1) = createElement ''paragraph'' [] s
               in case insert_node paragraph (positionAtStart cell) s1 of
                    None \<Rightarrow> None
                  | Some s2 \<Rightarrow> moveAll (childrenOf s cell) paragraph s2) = Some s' \<and>
           childrenOf s' cell = [length (nodes s)] \<and>
           kindOf s' (length (nodes s)) = Some (ElementNode ''paragraph'') \<and>
           childrenOf s' (length (nodes s)) = childrenOf s cell \<and>
           list_all (\<lambda>m. parentOf s' m = Some (length (nodes s))) (childrenOf s cell) \<and>
           parentOf s' (length (nodes s)) = Some cell \<and>
           (\<forall>j. j < length (nodes s) \<longrightarrow> kindOf s' j = kindOf s j) \<and>
           length (nodes s') = Suc (length (nodes s)) \<and> consumed s' = consumed s"
proof -
  let ?p = "length (nodes s)"
  let ?ms = "childrenOf s cell"
  let ?s1 = "snd (createElement ''paragraph'' [] s)"
  let ?s2 = "attach [?p] (positionAtStart cell) ?s1"
  have c: "cell < ?p" using el by (rule isElementNode_alloc)
  have ms: "\<forall>m\<in>set ?ms. m < ?p \<and> parentOf s m = Some cell"
    using par parentOf_alloc by (fastforce simp: list_all_iff)
  have p_notin: "?p \<notin> set ?ms" using ms by auto
  have cs2: "childrenOf ?s2 cell = ?p # ?ms"
    using c by (simp add: attach_facts createElement_facts positionAtStart_def)
  have p2: "childrenOf ?s2 ?p = []"
    using c by (simp add: attach_facts createElement_facts positionAtStart_def)
  have l2: "length (nodes ?s2) = Suc ?p"
    by (simp add: attach_facts createElement_facts)
  have par2: "\<forall>m\<in>set ?ms. parentOf ?s2 m = Some cell"
    using ms by (auto simp: attach_facts createElement_facts positionAtStart_def)
  have pc: "?p \<noteq> cell" using c by simp
  from moveAll_markers [OF cs2 d p_notin pc _ _ par2] c
  obtain s' where s':
    "moveAll ?ms ?p ?s2 = Some s'" "childrenOf s' cell = [?p]"
    "childrenOf s' ?p = childrenOf ?s2 ?p @ ?ms"
    "\<forall>m\<in>set ?ms. parentOf s' m = Some ?p" "\<forall>j. j \<notin> set ?ms \<longrightarrow> parentOf s' j = parentOf ?s2 j"
    "\<forall>j. kindOf s' j = kindOf ?s2 j"
    "length (nodes s') = length (nodes ?s2)" "consumed s' = consumed ?s2"
    by (auto simp: l2)
  have run: "(let (paragraph, s1) = createElement ''paragraph'' [] s
               in case insert_node paragraph (positionAtStart cell) s1 of
                    None \<Rightarrow> None
                  | Some s2 \<Rightarrow> moveAll ?ms paragraph s2) = Some s'"
    by (simp add: case_prod_unfold createElement_facts insert_fresh s'(1))
  have "parentOf s' ?p = Some cell"
    using s'(5) p_notin c by (simp add: attach_facts createElement_facts positionAtStart_def)
  moreover have "kindOf s' ?p = Some (ElementNode ''paragraph'')"
    "\<forall>j. j < ?p \<longrightarrow> kindOf s' j = kindOf s j"
    by (simp_all add: s'(6) attach_facts createElement_facts)
  moreover have "list_all (\<lambda>m. parentOf s' m = Some ?p) ?ms"
    using s'(4) by (simp add: list_all_iff)
  moreover have "consumed s' = consumed s"
    by (simp add: s'(8) attach_facts createElement_facts)
  ultimately show ?thesis
    using run s'(2,3,7) p2 l2 by simp
qed

lemma empty_branch:
  assumes el: "isElementNode s cell"
  shows "childrenOf (snd (insertElement ''paragraph'' (positionAtStart cell) s)) cell
           = length (nodes s) # childrenOf s cell \<and>
         kindOf (snd (insertElement ''paragraph'' (positionAtStart cell) s)) (length (nodes s))
           = Some (ElementNode ''paragraph'') \<and>
         childrenOf (snd (insertElement ''paragraph'' (positionAtStart cell) s)) (length (nodes s)) = [] \<and>
         parentOf (snd (insertElement ''paragraph'' (positionAtStart cell) s)) (length (nodes s))
           = Some cell \<and>
         (\<forall>j. j < length (nodes s) \<and> j \<noteq> cell \<longrightarrow>
            childrenOf (snd (insertElement ''paragraph'' (positionAtStart cell) s)) j = childrenOf s j) \<and>
         length (nodes (snd (insertElement ''paragraph'' (positionAtStart cell) s)))
           = Suc (length (nodes s))"
  using isElementNode_alloc [OF el]
  by (simp add: insertElement_def case_prod_unfold attach_facts createElement_facts
      positionAtStart_def)

lemma ensureParagraph_unfold:
  assumes "modelRange data = Some r" "nodeAfter s (rangeStart r) = Some cell" "isElementNode s cell"
  shows "ensureParagraphInTableCell data s =
           (if viewIsEmpty (viewItem data)
            then Some (snd (insertElement ''paragraph'' (positionAtStart cell) s))
            else if list_all (isModelElement s ''$marker'') (childrenOf s cell)
            then (let (paragraph, s1) = createElement ''paragraph'' [] s
                  in case insert_node paragraph (positionAtStart cell) s1 of
                       None \<Rightarrow> None
                     | Some s2 \<Rightarrow> moveAll (childrenOf s cell) paragraph s2)
            else Some s)"
  using assms by (simp add: ensureParagraphInTableCell_def Let_def)

section \<open>The claims about the scanner\<close>

text \<open>
  C1. The rows \<open>scanTable\<close> returns are the rows the loop classified Heading, in source
  order, then those it classified Body, in source order, then those it classified Footer,
  in source order, wherever their sections stand in the table; \<open>headingRows\<close> and
  \<open>footerRows\<close> count the first and the last group. The builder converts the rows by folding
  \<open>convertItem\<close> over this list from left to right. For the table of the example
  (body 2, head 1, body 3) \<open>headingRows\<close> is 1 and the rows come as 1, 2, 3.
\<close>

theorem scanTable_canonical_row_order:
  "rows (scanTable t) = rowsOfClass Heading t @ rowsOfClass Body t @ rowsOfClass Footer t \<and>
   headingRows (scanTable t) = length (rowsOfClass Heading t) \<and>
   footerRows (scanTable t) = length (rowsOfClass Footer t) \<and>
   convertRows api table (rows (scanTable t)) s =
     foldl (\<lambda>st row. snd (convertItem api row (positionAtEnd st table) st)) s
       (rowsOfClass Heading t @ rowsOfClass Body t @ rowsOfClass Footer t) \<and>
   headingRows (scanTable exampleTable) = 1 \<and>
   rows (scanTable exampleTable) =
     [ViewItem [1, 0] (ViewElement ''tr'' [] [ViewElement ''td'' [] [ViewText ''1'']]),
      ViewItem [0, 0] (ViewElement ''tr'' [] [ViewElement ''td'' [] [ViewText ''2'']]),
      ViewItem [2, 0] (ViewElement ''tr'' [] [ViewElement ''td'' [] [ViewText ''3'']])]"
proof -
  have general: "rows (scanTable t) = rowsOfClass Heading t @ rowsOfClass Body t @ rowsOfClass Footer t"
    "headingRows (scanTable t) = length (rowsOfClass Heading t)"
    "footerRows (scanTable t) = length (rowsOfClass Footer t)"
    by (simp_all add: scanTable_def Let_def scanLoop_buckets)
  have example: "headingRows (scanTable exampleTable) = 1 \<and>
     rows (scanTable exampleTable) =
       [ViewItem [1, 0] (ViewElement ''tr'' [] [ViewElement ''td'' [] [ViewText ''1'']]),
        ViewItem [0, 0] (ViewElement ''tr'' [] [ViewElement ''td'' [] [ViewText ''2'']]),
        ViewItem [2, 0] (ViewElement ''tr'' [] [ViewElement ''td'' [] [ViewText ''3'']])]"
    by code_simp
  show ?thesis
    unfolding convertRows_def general(1) [symmetric]
    using general example by simp
qed

text \<open>
  C2, at the failing input. The two rows of \<open>headingColumnsTable\<close> are both classified
  Body; their leading runs of heading cells are 0 and 1, whose minimum is 0, and
  \<open>scanTable\<close> returns \<open>headingColumns\<close> = 1: a run of 0 is falsy, so the next row
  replaces it.
\<close>

theorem headingColumns_after_zero_run:
  "bodyRows (scanLoop headingColumnsTable) = trsOf (hd (getChildren headingColumnsTable)) \<and>
   map scanRowForHeadingColumns (bodyRows (scanLoop headingColumnsTable)) = [Num 0, Num 1] \<and>
   headingColumns (scanTable headingColumnsTable) = Num 1"
  by code_simp

text \<open>
  C4. In a table with several \<open>thead\<close> (or several \<open>tfoot\<close>) children, a row of such a
  child is classified Body exactly when an earlier child has the same name; the rows of the
  first \<open>thead\<close> are classified Heading and nothing else, the rows of the first \<open>tfoot\<close>
  Footer and nothing else. What the cells of the row are plays no part.
\<close>

theorem later_sections_are_body:
  assumes j: "j < length (getChildren t)"
    and k: "k = ''thead'' \<or> k = ''tfoot''"
    and nm: "itemName (getChildren t ! j) = Some k"
    and tr: "tr \<in> set (trsOf (getChildren t ! j))"
  shows "(tr \<in> set (bodyRows (scanLoop t)) \<longleftrightarrow> (\<exists>i<j. itemName (getChildren t ! i) = Some k)) \<and>
         (tr \<in> set (headRows (scanLoop t)) \<longleftrightarrow>
            k = ''thead'' \<and> \<not> (\<exists>i<j. itemName (getChildren t ! i) = Some k)) \<and>
         (tr \<in> set (footRows (scanLoop t)) \<longleftrightarrow>
            k = ''tfoot'' \<and> \<not> (\<exists>i<j. itemName (getChildren t ! i) = Some k))"
proof -
  have sec: "isSection (getChildren t ! j)" using k nm by (auto simp: isSection_def)
  note b = row_in_bucket [OF j sec tr] later_section_class [OF j k nm]
  have "tr \<in> set (bodyRows (scanLoop t)) \<longleftrightarrow> (\<exists>i<j. itemName (getChildren t ! i) = Some k)"
    using k by (simp add: scanLoop_buckets b)
  moreover have "tr \<in> set (headRows (scanLoop t)) \<longleftrightarrow>
      k = ''thead'' \<and> \<not> (\<exists>i<j. itemName (getChildren t ! i) = Some k)"
    using k by (simp add: scanLoop_buckets b)
  moreover have "tr \<in> set (footRows (scanLoop t)) \<longleftrightarrow>
      k = ''tfoot'' \<and> \<not> (\<exists>i<j. itemName (getChildren t ! i) = Some k)"
    using k by (auto simp add: scanLoop_buckets b)
  ultimately show ?thesis by blast
qed

text \<open>The row of the second \<open>thead\<close> of \<open>twoHeadsTable\<close> has heading cells only and is
  a body row.\<close>

theorem later_sections_are_body_witness:
  "2 < length (getChildren twoHeadsTable) \<and>
   itemName (getChildren twoHeadsTable ! 2) = Some ''thead'' \<and>
   itemName (getChildren twoHeadsTable ! 0) = Some ''thead'' \<and>
   ViewItem [2, 0] (ViewElement ''tr'' [] [ViewElement ''th'' [] [ViewText ''c'']])
     \<in> set (trsOf (getChildren twoHeadsTable ! 2)) \<and>
   list_all (isElement ''th'')
     (getChildren (ViewItem [2, 0] (ViewElement ''tr'' [] [ViewElement ''th'' [] [ViewText ''c'']]))) \<and>
   ViewItem [2, 0] (ViewElement ''tr'' [] [ViewElement ''th'' [] [ViewText ''c'']])
     \<in> set (bodyRows (scanLoop twoHeadsTable)) \<and>
   ViewItem [2, 0] (ViewElement ''tr'' [] [ViewElement ''th'' [] [ViewText ''c'']])
     \<notin> set (headRows (scanLoop twoHeadsTable))"
proof -
  let ?tr = "ViewItem [2, 0] (ViewElement ''tr'' [] [ViewElement ''th'' [] [ViewText ''c'']])"
  have h1: "2 < length (getChildren twoHeadsTable)" by code_simp
  have h2: "''thead'' = ''thead'' \<or> ''thead'' = ''tfoot''" by simp
  have h3: "itemName (getChildren twoHeadsTable ! 2) = Some ''thead''" by code_simp
  have h0: "itemName (getChildren twoHeadsTable ! 0) = Some ''thead''" by code_simp
  have h4: "?tr \<in> set (trsOf (getChildren twoHeadsTable ! 2))" by code_simp
  have h5: "list_all (isElement ''th'') (getChildren ?tr)" by code_simp
  have ex: "\<exists>i<2. itemName (getChildren twoHeadsTable ! i) = Some ''thead''"
    using h0 by (intro exI [of _ 0]) simp
  from later_sections_are_body [OF h1 h2 h3 h4] ex
  have "?tr \<in> set (bodyRows (scanLoop twoHeadsTable))" "?tr \<notin> set (headRows (scanLoop twoHeadsTable))"
    by simp_all
  with h1 h3 h0 h4 h5 show ?thesis by simp
qed

text \<open>
  C5, at the failing input. The only row of \<open>strayTextTable\<close> lies in a \<open>tbody\<close>, has
  one cell and that cell is a \<open>th\<close>; the loop tests the children of the row, finds the text
  node among them and classifies the row Body.
\<close>

theorem heading_row_with_stray_text:
  "map itemName (getChildren strayTextTable) = [Some ''tbody''] \<and>
   map (map itemName \<circ> cellsOf) (trsOf (hd (getChildren strayTextTable))) = [[Some ''th'']] \<and>
   headRows (scanLoop strayTextTable) = [] \<and>
   bodyRows (scanLoop strayTextTable) = trsOf (hd (getChildren strayTextTable)) \<and>
   headingRows (scanTable strayTextTable) = 0"
  by code_simp

text \<open>What holds of the rows of a body section: a row is classified Heading exactly when it
  has a child and all its children are \<open>th\<close> elements, and Body otherwise; so a row
  with no cell is never a heading row.\<close>

lemma tbody_rows:
  assumes j: "j < length (getChildren t)"
    and nm: "itemName (getChildren t ! j) = Some ''tbody''"
    and tr: "tr \<in> set (trsOf (getChildren t ! j))"
  shows "(tr \<in> set (headRows (scanLoop t)) \<longleftrightarrow>
            getChildren tr \<noteq> [] \<and> list_all (isElement ''th'') (getChildren tr)) \<and>
         (tr \<in> set (bodyRows (scanLoop t)) \<longleftrightarrow>
            \<not> (getChildren tr \<noteq> [] \<and> list_all (isElement ''th'') (getChildren tr))) \<and>
         tr \<notin> set (footRows (scanLoop t)) \<and>
         (cellsOf tr = [] \<longrightarrow> tr \<notin> set (headRows (scanLoop t)))"
proof -
  have sec: "isSection (getChildren t ! j)" using nm by (simp add: isSection_def)
  note b = row_in_bucket [OF j sec tr] tbody_row_class [OF j nm]
  have "cellsOf tr = [] \<Longrightarrow> getChildren tr \<noteq> [] \<Longrightarrow> \<not> list_all (isElement ''th'') (getChildren tr)"
    by (cases "getChildren tr") (auto simp: cellsOf_def isElement_def split: if_splits)
  then show ?thesis by (auto simp add: scanLoop_buckets b)
qed

section \<open>The claims about the converters\<close>

text \<open>
  C3. When \<open>upcastTable\<close> has put the table element in and converted the rows and the
  other children of the view table, and the table element (which stays in the store) then
  has no children, the converter puts in exactly one \<open>tableRow\<close> whose only child is one
  \<open>tableCell\<close> without children; a table that has children is left as it is. So the
  table of the result is never without children.
\<close>

theorem upcastTable_never_childless:
  assumes t: "test s (itemRef (viewItem data)) [AName]"
    and ins: "fst (tableInsertion api data s)"
    and alloc: "length (nodes s) < length (nodes (convertedState api data s))"
  shows "\<exists>s'. upcastTable api data s = Some (updateConversionResult api (length (nodes s)) data s', s') \<and>
           childrenOf s' (length (nodes s)) \<noteq> [] \<and>
           (if isEmpty (convertedState api data s) (length (nodes s))
            then childrenOf s' (length (nodes s)) = [length (nodes (convertedState api data s))] \<and>
                 kindOf s' (length (nodes (convertedState api data s))) = Some (ElementNode ''tableRow'') \<and>
                 childrenOf s' (length (nodes (convertedState api data s)))
                   = [Suc (length (nodes (convertedState api data s)))] \<and>
                 kindOf s' (Suc (length (nodes (convertedState api data s))))
                   = Some (ElementNode ''tableCell'') \<and>
                 childrenOf s' (Suc (length (nodes (convertedState api data s)))) = [] \<and>
                 length (nodes s') = length (nodes (convertedState api data s)) + 2
            else s' = convertedState api data s)"
proof (cases "isEmpty (convertedState api data s) (length (nodes s))")
  case True
  from repairEmptyTable_empty [OF alloc True] obtain s' where
    "repairEmptyTable (length (nodes s)) (convertedState api data s) = Some s'"
    "childrenOf s' (length (nodes s)) = [length (nodes (convertedState api data s))]"
    "kindOf s' (length (nodes (convertedState api data s))) = Some (ElementNode ''tableRow'')"
    "childrenOf s' (length (nodes (convertedState api data s)))
       = [Suc (length (nodes (convertedState api data s)))]"
    "kindOf s' (Suc (length (nodes (convertedState api data s)))) = Some (ElementNode ''tableCell'')"
    "childrenOf s' (Suc (length (nodes (convertedState api data s)))) = []"
    "length (nodes s') = length (nodes (convertedState api data s)) + 2"
    by blast
  with True show ?thesis
    by (simp add: upcastTable_accepted [OF t ins])
next
  case False
  then have "repairEmptyTable (length (nodes s)) (convertedState api data s)
               = Some (convertedState api data s)"
    by (rule repairEmptyTable_nonempty)
  with False show ?thesis
    by (simp add: upcastTable_accepted [OF t ins] isEmpty_def)
qed

text \<open>The view table without children, put into a model that holds the root only: the
  table is element 1, the row element 2 and the cell element 3.\<close>

theorem upcastTable_never_childless_witness:
  "test rootState (itemRef (viewItem emptyTableData)) [AName] \<and>
   fst (tableInsertion (idleApi True) emptyTableData rootState) \<and>
   length (nodes rootState) < length (nodes (convertedState (idleApi True) emptyTableData rootState)) \<and>
   isEmpty (convertedState (idleApi True) emptyTableData rootState) (length (nodes rootState)) \<and>
   (\<exists>s'. upcastTable (idleApi True) emptyTableData rootState
            = Some (updateConversionResult (idleApi True) 1 emptyTableData s', s') \<and>
          childrenOf s' 1 = [2] \<and> kindOf s' 2 = Some (ElementNode ''tableRow'') \<and>
          childrenOf s' 2 = [3] \<and> kindOf s' 3 = Some (ElementNode ''tableCell'') \<and>
          childrenOf s' 3 = [])"
proof -
  have n: "length (nodes rootState) = 1" by (simp add: rootState_def)
  have h1: "test rootState (itemRef (viewItem emptyTableData)) [AName]"
    by code_simp
  have h2: "fst (tableInsertion (idleApi True) emptyTableData rootState)"
    by code_simp
  have cs: "length (nodes (convertedState (idleApi True) emptyTableData rootState)) = 2"
    by code_simp
  have h3: "length (nodes rootState)
              < length (nodes (convertedState (idleApi True) emptyTableData rootState))"
    by (simp add: cs n)
  have h4: "isEmpty (convertedState (idleApi True) emptyTableData rootState) (length (nodes rootState))"
    by code_simp
  from upcastTable_never_childless [OF h1 h2 h3] h4
  have "\<exists>s'. upcastTable (idleApi True) emptyTableData rootState
            = Some (updateConversionResult (idleApi True) 1 emptyTableData s', s') \<and>
          childrenOf s' 1 = [2] \<and> kindOf s' 2 = Some (ElementNode ''tableRow'') \<and>
          childrenOf s' 2 = [3] \<and> kindOf s' 3 = Some (ElementNode ''tableCell'') \<and>
          childrenOf s' 3 = []"
    by (simp add: cs n numeral_2_eq_2 numeral_3_eq_3) blast
  with h1 h2 h3 h4 show ?thesis by blast
qed

text \<open>
  C7. When \<open>safeInsert\<close> rejects the new table element, \<open>upcastTable\<close> returns with
  the data as they were (no range is reported) and with the state as \<open>safeInsert\<close> left
  it: the converter itself consumes nothing, so with callbacks that leave the consumable
  alone nothing of the view table is consumed and its name can still be claimed. When
  \<open>safeInsert\<close> accepts, the name of the view table is consumed, and with such callbacks
  it is all that is consumed.
\<close>

theorem upcastTable_consumes_after_insert:
  assumes t: "test s (itemRef (viewItem data)) [AName]"
  shows "if fst (tableInsertion api data s)
         then \<exists>data' s'. upcastTable api data s = Some (data', s') \<and>
                (if keepsConsumed api
                 then consumed s' = consumed s \<union> {(itemRef (viewItem data), AName)}
                 else True)
         else upcastTable api data s = Some (data, snd (tableInsertion api data s)) \<and>
              (if keepsConsumed api
               then consumed (snd (tableInsertion api data s)) = consumed s \<and>
                    test (snd (tableInsertion api data s)) (itemRef (viewItem data)) [AName]
               else True)"
proof (cases "fst (tableInsertion api data s)")
  case True
  obtain s' where s': "repairEmptyTable (length (nodes s)) (convertedState api data s) = Some s'"
    "consumed s' = consumed (convertedState api data s)"
    using repairEmptyTable_consumed by blast
  show ?thesis
    using True s' by (simp add: upcastTable_accepted [OF t True] convertedState_consumed)
next
  case False
  have "keepsConsumed api \<Longrightarrow> consumed (snd (tableInsertion api data s)) = consumed s"
    by (simp add: tableInsertion_def keepsConsumed_def createElement_facts)
  with False t show ?thesis
    by (simp add: upcastTable_rejected [OF t False] test_def)
qed

text \<open>The view table without children, with a \<open>safeInsert\<close> that rejects it: the data
  and the consumable are as before.\<close>

theorem upcastTable_consumes_after_insert_witness:
  "test rootState (itemRef (viewItem emptyTableData)) [AName] \<and>
   \<not> fst (tableInsertion (idleApi False) emptyTableData rootState) \<and>
   keepsConsumed (idleApi False) \<and>
   upcastTable (idleApi False) emptyTableData rootState
     = Some (emptyTableData, snd (tableInsertion (idleApi False) emptyTableData rootState)) \<and>
   consumed (snd (tableInsertion (idleApi False) emptyTableData rootState)) = consumed rootState \<and>
   test (snd (tableInsertion (idleApi False) emptyTableData rootState))
     (itemRef (viewItem emptyTableData)) [AName]"
proof -
  have h1: "test rootState (itemRef (viewItem emptyTableData)) [AName]"
    by code_simp
  have h2: "\<not> fst (tableInsertion (idleApi False) emptyTableData rootState)"
    by (simp add: tableInsertion_def idleApi_def)
  have h3: "keepsConsumed (idleApi False)"
    by (simp add: keepsConsumed_def idleApi_def)
  from upcastTable_consumes_after_insert [OF h1, of "idleApi False"] h2 h3
  have "upcastTable (idleApi False) emptyTableData rootState
     = Some (emptyTableData, snd (tableInsertion (idleApi False) emptyTableData rootState)) \<and>
   consumed (snd (tableInsertion (idleApi False) emptyTableData rootState)) = consumed rootState \<and>
   test (snd (tableInsertion (idleApi False) emptyTableData rootState))
     (itemRef (viewItem emptyTableData)) [AName]"
    by simp
  with h1 h2 h3 show ?thesis by blast
qed

text \<open>
  C6 as stated fails where the conversion of the inner table produces a node that is not
  a table: the converter asks only whether the range holds a node, takes the paragraph as
  the table, goes on and reverts nothing. The model then holds the root and the paragraph,
  no table, and the name and the class \<open>table\<close> of the figure stay consumed.
\<close>

theorem upcastTableFigure_keeps_figure_consumed:
  "test rootState (itemRef (viewItem figureData)) [AName, AClass ''table''] \<and>
   getViewTableFromFigure (viewItem figureData) = Some (ViewItem [0] (ViewElement ''table'' [] [])) \<and>
   test rootState [0] [AName] \<and>
   map_option
     (\<lambda>(d, s'). (map (kindOf s') [0 ..< length (nodes s')],
                  test s' (itemRef (viewItem figureData)) [AName, AClass ''table''],
                  (itemRef (viewItem figureData), AName) \<in> consumed s'))
     (upcastTableFigure paragraphApi figureData rootState)
     = Some ([Some (ElementNode ''$root''), Some (ElementNode ''paragraph'')], False, True)"
  by code_simp

text \<open>What \<open>upcastTableFigure\<close> does in the other cases, once it has consumed the two
  aspects of the figure: with no range it ends in an error, and with a range whose first
  node is an element, of any name, it converts the children of the figure into that
  element and reports its range, without a revert.\<close>

lemma upcastTableFigure_other_cases:
  assumes fig: "test s (itemRef (viewItem data)) [AName, AClass ''table'']"
    and tab: "getViewTableFromFigure (viewItem data) = Some viewTable"
    and free: "test s (itemRef viewTable) [AName]"
    and conv: "convertItem api viewTable (modelCursor data)
                 (consume (itemRef (viewItem data)) [AName, AClass ''table''] s) = (res, s2)"
  shows "resultRange res = None \<Longrightarrow> upcastTableFigure api data s = None"
    and "resultRange res = Some r \<Longrightarrow> first (getItems api r s2) = Some modelTable \<Longrightarrow>
         isElementNode s2 modelTable \<Longrightarrow>
         upcastTableFigure api data s =
           Some (updateConversionResult api modelTable data
                   (snd (convertChildren api (viewItem data) (positionAtEnd s2 modelTable) s2)),
                 snd (convertChildren api (viewItem data) (positionAtEnd s2 modelTable) s2))"
  using fig tab free conv by (simp_all add: upcastTableFigure_def Let_def)

lemma upcastTableFigure_no_range:
  "upcastTableFigure noRangeApi figureData rootState = None"
  by code_simp

text \<open>
  C6, amended. When \<open>upcastTableFigure\<close> has consumed the name and the class \<open>table\<close>
  of the figure and the conversion of the inner table gives a range that holds no node,
  the converter reverts these two aspects and returns with the data as they were. The two
  aspects are then not consumed, as before the converter ran, and the test that opens the
  converter passes again; if the conversion of the inner table consumed nothing itself,
  the whole consumable is as before.
\<close>

theorem upcastTableFigure_reverts:
  assumes fig: "test s (itemRef (viewItem data)) [AName, AClass ''table'']"
    and tab: "getViewTableFromFigure (viewItem data) = Some viewTable"
    and free: "test s (itemRef viewTable) [AName]"
    and conv: "convertItem api viewTable (modelCursor data)
                 (consume (itemRef (viewItem data)) [AName, AClass ''table''] s) = (res, s2)"
    and rng: "resultRange res = Some r"
    and none: "first (getItems api r s2) = None"
  shows "upcastTableFigure api data s
           = Some (data, revert (itemRef (viewItem data)) [AName, AClass ''table''] s2) \<and>
         test (revert (itemRef (viewItem data)) [AName, AClass ''table''] s2)
           (itemRef (viewItem data)) [AName, AClass ''table''] \<and>
         nodes (revert (itemRef (viewItem data)) [AName, AClass ''table''] s2) = nodes s2 \<and>
         (if consumed s2 = consumed (consume (itemRef (viewItem data)) [AName, AClass ''table''] s)
          then consumed (revert (itemRef (viewItem data)) [AName, AClass ''table''] s2) = consumed s
          else True)"
proof -
  have run: "upcastTableFigure api data s
           = Some (data, revert (itemRef (viewItem data)) [AName, AClass ''table''] s2)"
    using fig tab free conv rng none by (simp add: upcastTableFigure_def Let_def)
  have again: "test (revert (itemRef (viewItem data)) [AName, AClass ''table''] s2)
           (itemRef (viewItem data)) [AName, AClass ''table'']"
    by (simp add: test_def revert_def)
  have same: "consumed (revert (itemRef (viewItem data)) [AName, AClass ''table'']
                  (consume (itemRef (viewItem data)) [AName, AClass ''table''] s)) = consumed s"
    using fig by (auto simp: test_def revert_def consume_def)
  have "consumed s2 = consumed (consume (itemRef (viewItem data)) [AName, AClass ''table''] s) \<Longrightarrow>
        consumed (revert (itemRef (viewItem data)) [AName, AClass ''table''] s2) = consumed s"
    using same by (simp add: revert_def)
  with run again show ?thesis by (simp add: revert_def)
qed

text \<open>The figure of \<open>figureData\<close> where the inner table is converted by
  \<open>upcastTable\<close> and \<open>safeInsert\<close> rejects the table element: the conversion gives a
  collapsed range, and the figure is as before.\<close>

theorem upcastTableFigure_reverts_witness:
  "test rootState (itemRef (viewItem figureData)) [AName, AClass ''table''] \<and>
   getViewTableFromFigure (viewItem figureData) = Some (ViewItem [0] (ViewElement ''table'' [] [])) \<and>
   test rootState [0] [AName] \<and>
   resultRange (fst (convertItem (dispatchTableApi False) (ViewItem [0] (ViewElement ''table'' [] []))
                       (modelCursor figureData)
                       (consume [] [AName, AClass ''table''] rootState)))
     = Some \<lparr> rangeStart = modelCursor figureData, rangeEnd = modelCursor figureData \<rparr> \<and>
   first (getItems (dispatchTableApi False)
            \<lparr> rangeStart = modelCursor figureData, rangeEnd = modelCursor figureData \<rparr>
            (snd (convertItem (dispatchTableApi False) (ViewItem [0] (ViewElement ''table'' [] []))
                    (modelCursor figureData)
                    (consume [] [AName, AClass ''table''] rootState)))) = None \<and>
   upcastTableFigure (dispatchTableApi False) figureData rootState
     = Some (figureData,
             revert [] [AName, AClass ''table'']
               (snd (convertItem (dispatchTableApi False) (ViewItem [0] (ViewElement ''table'' [] []))
                       (modelCursor figureData)
                       (consume [] [AName, AClass ''table''] rootState)))) \<and>
   test (revert [] [AName, AClass ''table'']
           (snd (convertItem (dispatchTableApi False) (ViewItem [0] (ViewElement ''table'' [] []))
                   (modelCursor figureData)
                   (consume [] [AName, AClass ''table''] rootState))))
     [] [AName, AClass ''table''] \<and>
   consumed (revert [] [AName, AClass ''table'']
               (snd (convertItem (dispatchTableApi False) (ViewItem [0] (ViewElement ''table'' [] []))
                       (modelCursor figureData)
                       (consume [] [AName, AClass ''table''] rootState))))
     = consumed rootState"
proof -
  let ?vt = "ViewItem [0] (ViewElement ''table'' [] [])"
  let ?p = "modelCursor figureData"
  let ?r = "\<lparr> rangeStart = ?p, rangeEnd = ?p \<rparr>"
  let ?c = "convertItem (dispatchTableApi False) ?vt ?p
              (consume (itemRef (viewItem figureData)) [AName, AClass ''table''] rootState)"
  have ref: "itemRef (viewItem figureData) = []" by (simp add: figureData_def)
  have h1: "test rootState (itemRef (viewItem figureData)) [AName, AClass ''table'']"
    by code_simp
  have h2: "getViewTableFromFigure (viewItem figureData) = Some ?vt"
    by code_simp
  have h3: "test rootState (itemRef ?vt) [AName]"
    by code_simp
  have h4: "?c = (fst ?c, snd ?c)" by simp
  have h5: "resultRange (fst ?c) = Some ?r" by code_simp
  have h6: "first (getItems (dispatchTableApi False) ?r (snd ?c)) = None" by code_simp
  have h7: "consumed (snd ?c)
              = consumed (consume (itemRef (viewItem figureData)) [AName, AClass ''table''] rootState)"
    by code_simp
  from upcastTableFigure_reverts [OF h1 h2 h3 h4 h5 h6] h7
  have "upcastTableFigure (dispatchTableApi False) figureData rootState
          = Some (figureData,
                  revert (itemRef (viewItem figureData)) [AName, AClass ''table''] (snd ?c)) \<and>
        test (revert (itemRef (viewItem figureData)) [AName, AClass ''table''] (snd ?c))
          (itemRef (viewItem figureData)) [AName, AClass ''table''] \<and>
        consumed (revert (itemRef (viewItem figureData)) [AName, AClass ''table''] (snd ?c))
          = consumed rootState"
    by simp
  with h1 h2 h3 h5 h6 show ?thesis
    unfolding ref by simp
qed

text \<open>
  C8. \<open>skipEmptyTableRow\<close> stops the event exactly when the view row has no children
  and the offset of the cursor in its parent is zero. With the converter first in the
  chain, no later converter runs for such a row and the data and the model stay as they
  are; for any other row the later converters run as if it were not there. An empty row at
  offset 0 is stopped, the same row at offset 1 is not.
\<close>

theorem skipEmptyTableRow_stops_iff:
  "skipEmptyTableRow data
     = (getChildren (viewItem data) = [] \<and> posOffset (modelCursor data) = 0) \<and>
   fire (skipEmptyTableRowConverter # hs) data s
     = (if getChildren (viewItem data) = [] \<and> posOffset (modelCursor data) = 0
        then (data, s) else fire hs data s) \<and>
   skipEmptyTableRow (emptyRowData 0) \<and>
   \<not> skipEmptyTableRow (emptyRowData 1)"
  by (simp add: skipEmptyTableRow_def skipEmptyTableRowConverter_def viewIsEmpty_def index_def
      emptyRowData_def getChildren_def)

text \<open>
  C9 as stated fails where the view cell is empty and the model cell holds markers: the
  converter puts the paragraph in front of the markers and returns, so the cell holds the
  paragraph and, behind it, the two markers, and the paragraph holds nothing.
\<close>

theorem ensureParagraph_empty_source_keeps_markers:
  "modelRange (cellData []) \<noteq> None \<and>
   viewIsEmpty (viewItem (cellData [])) \<and>
   childrenOf (cellState 2) 1 = [2, 3] \<and>
   list_all (isModelElement (cellState 2) ''$marker'') (childrenOf (cellState 2) 1) \<and>
   map_option (\<lambda>s'. (childrenOf s' 1, kindOf s' 4, childrenOf s' 4))
     (ensureParagraphInTableCell (cellData []) (cellState 2))
     = Some ([4, 2, 3], Some (ElementNode ''paragraph''), [])"
  by code_simp

text \<open>
  C9, amended. For a cell with a range (the node after its start being the cell element):
  if the view cell is empty, the converter puts exactly one new, empty paragraph in at the
  start of the cell; if the view cell is not empty and every child of the cell is a
  marker, the cell is left with the new paragraph as its only child, and the paragraph
  holds the markers in their order. The children of the cell are taken to be linked to it
  as in every model tree: distinct, with the cell as their parent.
\<close>

theorem ensureParagraph_repairs_cell:
  assumes rng: "modelRange data = Some r"
    and cell: "nodeAfter s (rangeStart r) = Some cell"
    and el: "isElementNode s cell"
  shows "(viewIsEmpty (viewItem data) \<longrightarrow>
            (\<exists>s'. ensureParagraphInTableCell data s = Some s' \<and>
                   childrenOf s' cell = length (nodes s) # childrenOf s cell \<and>
                   kindOf s' (length (nodes s)) = Some (ElementNode ''paragraph'') \<and>
                   childrenOf s' (length (nodes s)) = [] \<and>
                   length (nodes s') = Suc (length (nodes s)))) \<and>
         (\<not> viewIsEmpty (viewItem data) \<and>
          list_all (isModelElement s ''$marker'') (childrenOf s cell) \<and>
          distinct (childrenOf s cell) \<and>
          list_all (\<lambda>m. parentOf s m = Some cell) (childrenOf s cell) \<longrightarrow>
            (\<exists>s'. ensureParagraphInTableCell data s = Some s' \<and>
                   childrenOf s' cell = [length (nodes s)] \<and>
                   kindOf s' (length (nodes s)) = Some (ElementNode ''paragraph'') \<and>
                   childrenOf s' (length (nodes s)) = childrenOf s cell \<and>
                   list_all (isModelElement s' ''$marker'') (childrenOf s cell) \<and>
                   length (nodes s') = Suc (length (nodes s))))"
proof (intro conjI impI)
  assume "viewIsEmpty (viewItem data)"
  then show "\<exists>s'. ensureParagraphInTableCell data s = Some s' \<and>
                   childrenOf s' cell = length (nodes s) # childrenOf s cell \<and>
                   kindOf s' (length (nodes s)) = Some (ElementNode ''paragraph'') \<and>
                   childrenOf s' (length (nodes s)) = [] \<and>
                   length (nodes s') = Suc (length (nodes s))"
    using empty_branch [OF el] by (simp add: ensureParagraph_unfold [OF rng cell el])
next
  assume a: "\<not> viewIsEmpty (viewItem data) \<and>
          list_all (isModelElement s ''$marker'') (childrenOf s cell) \<and>
          distinct (childrenOf s cell) \<and>
          list_all (\<lambda>m. parentOf s m = Some cell) (childrenOf s cell)"
  then have d: "distinct (childrenOf s cell)"
    and par: "list_all (\<lambda>m. parentOf s m = Some cell) (childrenOf s cell)"
    and mk: "list_all (isModelElement s ''$marker'') (childrenOf s cell)"
    by simp_all
  from markers_branch [OF el d par] obtain s' where s':
    "(let (paragraph, s1) = createElement ''paragraph'' [] s
      in case insert_node paragraph (positionAtStart cell) s1 of
           None \<Rightarrow> None
         | Some s2 \<Rightarrow> moveAll (childrenOf s cell) paragraph s2) = Some s'"
    "childrenOf s' cell = [length (nodes s)]"
    "kindOf s' (length (nodes s)) = Some (ElementNode ''paragraph'')"
    "childrenOf s' (length (nodes s)) = childrenOf s cell"
    "\<forall>j. j < length (nodes s) \<longrightarrow> kindOf s' j = kindOf s j"
    "length (nodes s') = Suc (length (nodes s))"
    by blast
  have "\<forall>m\<in>set (childrenOf s cell). m < length (nodes s)"
    using par parentOf_alloc by (fastforce simp: list_all_iff)
  with mk s'(5) have "list_all (isModelElement s' ''$marker'') (childrenOf s cell)"
    by (simp add: list_all_iff isModelElement_def)
  with a s' show "\<exists>s'. ensureParagraphInTableCell data s = Some s' \<and>
                   childrenOf s' cell = [length (nodes s)] \<and>
                   kindOf s' (length (nodes s)) = Some (ElementNode ''paragraph'') \<and>
                   childrenOf s' (length (nodes s)) = childrenOf s cell \<and>
                   list_all (isModelElement s' ''$marker'') (childrenOf s cell) \<and>
                   length (nodes s') = Suc (length (nodes s))"
    by (simp add: ensureParagraph_unfold [OF rng cell el])
qed

text \<open>A view cell that is not empty, over a model cell that holds two markers: the cell
  ends with the paragraph 4 alone, which holds the markers 2 and 3.\<close>

theorem ensureParagraph_repairs_cell_witness:
  "modelRange (cellData [ViewElement ''span'' [] []])
     = Some \<lparr> rangeStart = \<lparr> posParent = 0, posOffset = 0 \<rparr>,
              rangeEnd = \<lparr> posParent = 0, posOffset = 1 \<rparr> \<rparr> \<and>
   nodeAfter (cellState 2) \<lparr> posParent = 0, posOffset = 0 \<rparr> = Some 1 \<and>
   isElementNode (cellState 2) 1 \<and>
   \<not> viewIsEmpty (viewItem (cellData [ViewElement ''span'' [] []])) \<and>
   list_all (isModelElement (cellState 2) ''$marker'') (childrenOf (cellState 2) 1) \<and>
   distinct (childrenOf (cellState 2) 1) \<and>
   list_all (\<lambda>m. parentOf (cellState 2) m = Some 1) (childrenOf (cellState 2) 1) \<and>
   (\<exists>s'. ensureParagraphInTableCell (cellData [ViewElement ''span'' [] []]) (cellState 2) = Some s' \<and>
          childrenOf s' 1 = [4] \<and> kindOf s' 4 = Some (ElementNode ''paragraph'') \<and>
          childrenOf s' 4 = [2, 3])"
proof -
  let ?d = "cellData [ViewElement ''span'' [] []]"
  let ?r = "\<lparr> rangeStart = \<lparr> posParent = 0, posOffset = 0 \<rparr>,
              rangeEnd = \<lparr> posParent = 0, posOffset = 1 \<rparr> \<rparr>"
  have h1: "modelRange ?d = Some ?r" by (simp add: cellData_def)
  have rangeStart_h: "rangeStart ?r = \<lparr> posParent = 0, posOffset = 0 \<rparr>" by simp
  have h2: "nodeAfter (cellState 2) (rangeStart ?r) = Some 1" by code_simp
  have h3: "isElementNode (cellState 2) 1" by code_simp
  have h4: "\<not> viewIsEmpty (viewItem ?d)" by code_simp
  have h5: "list_all (isModelElement (cellState 2) ''$marker'') (childrenOf (cellState 2) 1)"
    by code_simp
  have h6: "distinct (childrenOf (cellState 2) 1)" by code_simp
  have h7: "list_all (\<lambda>m. parentOf (cellState 2) m = Some 1) (childrenOf (cellState 2) 1)"
    by code_simp
  have n: "length (nodes (cellState 2)) = 4" by code_simp
  have cs: "childrenOf (cellState 2) 1 = [2, 3]" by code_simp
  from ensureParagraph_repairs_cell [OF h1 h2 h3] h4 h5 h6 h7
  have "\<exists>s'. ensureParagraphInTableCell ?d (cellState 2) = Some s' \<and>
          childrenOf s' 1 = [length (nodes (cellState 2))] \<and>
          kindOf s' (length (nodes (cellState 2))) = Some (ElementNode ''paragraph'') \<and>
          childrenOf s' (length (nodes (cellState 2))) = childrenOf (cellState 2) 1 \<and>
          list_all (isModelElement s' ''$marker'') (childrenOf (cellState 2) 1) \<and>
          length (nodes s') = Suc (length (nodes (cellState 2)))"
    by blast
  then have "\<exists>s'. ensureParagraphInTableCell ?d (cellState 2) = Some s' \<and>
          childrenOf s' 1 = [4] \<and> kindOf s' 4 = Some (ElementNode ''paragraph'') \<and>
          childrenOf s' 4 = [2, 3]"
    unfolding n cs by blast
  with h1 h2 h3 h4 h5 h6 h7 show ?thesis
    unfolding rangeStart_h by blast
qed

text \<open>
  C10. For a cell with a range (the node after its start being the cell element, its
  children linked to it): the converter returns, and the cell then has at least one child.
  When the view cell is not empty and the cell has no children, the test that all children
  are markers holds of the empty list, and the cell is left with one new, empty paragraph.
\<close>

theorem ensureParagraph_cell_never_empty:
  assumes rng: "modelRange data = Some r"
    and cell: "nodeAfter s (rangeStart r) = Some cell"
    and el: "isElementNode s cell"
    and d: "distinct (childrenOf s cell)"
    and par: "list_all (\<lambda>m. parentOf s m = Some cell) (childrenOf s cell)"
  shows "\<exists>s'. ensureParagraphInTableCell data s = Some s' \<and>
           childrenOf s' cell \<noteq> [] \<and>
           (\<not> viewIsEmpty (viewItem data) \<and> childrenOf s cell = [] \<longrightarrow>
              list_all (isModelElement s ''$marker'') (childrenOf s cell) \<and>
              childrenOf s' cell = [length (nodes s)] \<and>
              kindOf s' (length (nodes s)) = Some (ElementNode ''paragraph'') \<and>
              childrenOf s' (length (nodes s)) = [])"
proof (cases "viewIsEmpty (viewItem data)")
  case True
  with empty_branch [OF el] show ?thesis
    by (simp add: ensureParagraph_unfold [OF rng cell el])
next
  case False
  show ?thesis
  proof (cases "list_all (isModelElement s ''$marker'') (childrenOf s cell)")
    case True
    from markers_branch [OF el d par] obtain s' where
      "(let (paragraph, s1) = createElement ''paragraph'' [] s
        in case insert_node paragraph (positionAtStart cell) s1 of
             None \<Rightarrow> None
           | Some s2 \<Rightarrow> moveAll (childrenOf s cell) paragraph s2) = Some s'"
      "childrenOf s' cell = [length (nodes s)]"
      "kindOf s' (length (nodes s)) = Some (ElementNode ''paragraph'')"
      "childrenOf s' (length (nodes s)) = childrenOf s cell"
      by blast
    with True False show ?thesis
      by (simp add: ensureParagraph_unfold [OF rng cell el])
  next
    case no: False
    then have "childrenOf s cell \<noteq> []" by auto
    with no False show ?thesis
      by (simp add: ensureParagraph_unfold [OF rng cell el])
  qed
qed

text \<open>A view cell that is not empty, over a model cell without children: the cell ends
  with the new paragraph 2, which is empty.\<close>

theorem ensureParagraph_cell_never_empty_witness:
  "modelRange (cellData [ViewElement ''span'' [] []])
     = Some \<lparr> rangeStart = \<lparr> posParent = 0, posOffset = 0 \<rparr>,
              rangeEnd = \<lparr> posParent = 0, posOffset = 1 \<rparr> \<rparr> \<and>
   nodeAfter (cellState 0) \<lparr> posParent = 0, posOffset = 0 \<rparr> = Some 1 \<and>
   isElementNode (cellState 0) 1 \<and>
   \<not> viewIsEmpty (viewItem (cellData [ViewElement ''span'' [] []])) \<and>
   childrenOf (cellState 0) 1 = [] \<and>
   (\<exists>s'. ensureParagraphInTableCell (cellData [ViewElement ''span'' [] []]) (cellState 0) = Some s' \<and>
          childrenOf s' 1 = [2] \<and> kindOf s' 2 = Some (ElementNode ''paragraph'') \<and>
          childrenOf s' 2 = [])"
proof -
  let ?d = "cellData [ViewElement ''span'' [] []]"
  let ?r = "\<lparr> rangeStart = \<lparr> posParent = 0, posOffset = 0 \<rparr>,
              rangeEnd = \<lparr> posParent = 0, posOffset = 1 \<rparr> \<rparr>"
  have h1: "modelRange ?d = Some ?r" by (simp add: cellData_def)
  have rangeStart_h: "rangeStart ?r = \<lparr> posParent = 0, posOffset = 0 \<rparr>" by simp
  have h2: "nodeAfter (cellState 0) (rangeStart ?r) = Some 1" by code_simp
  have h3: "isElementNode (cellState 0) 1" by code_simp
  have h4: "\<not> viewIsEmpty (viewItem ?d)" by code_simp
  have cs: "childrenOf (cellState 0) 1 = []" by code_simp
  have h5: "distinct (childrenOf (cellState 0) 1)" unfolding cs by simp
  have h6: "list_all (\<lambda>m. parentOf (cellState 0) m = Some 1) (childrenOf (cellState 0) 1)"
    unfolding cs by simp
  have n: "length (nodes (cellState 0)) = 2" by code_simp
  from ensureParagraph_cell_never_empty [OF h1 h2 h3 h5 h6] h4 cs
  have "\<exists>s'. ensureParagraphInTableCell ?d (cellState 0) = Some s' \<and>
          childrenOf s' 1 = [length (nodes (cellState 0))] \<and>
          kindOf s' (length (nodes (cellState 0))) = Some (ElementNode ''paragraph'') \<and>
          childrenOf s' (length (nodes (cellState 0))) = []"
    by blast
  then have "\<exists>s'. ensureParagraphInTableCell ?d (cellState 0) = Some s' \<and>
          childrenOf s' 1 = [2] \<and> kindOf s' 2 = Some (ElementNode ''paragraph'') \<and>
          childrenOf s' 2 = []"
    unfolding n by blast
  with h1 h2 h3 h4 cs show ?thesis
    unfolding rangeStart_h by blast
qed

end
